theory Spec2Isabelle
  imports Main "HOL-Library.AList"
begin

section \<open>Values of the settings document\<close>

text \<open>
  The settings document of \<^verbatim>\<open>gns3/local_config.py\<close> is what \<^verbatim>\<open>json.load\<close> returns and
  what \<^verbatim>\<open>json.dump\<close> accepts: null, booleans, integers, strings, lists and dictionaries
  with string keys. Floating point numbers are left out. A dictionary is an association
  list in insertion order, as a Python dictionary iterates; every dictionary of a
  well-formed value has pairwise different keys.
\<close>

datatype json =
    JNull
  | JBool bool
  | JInt int
  | JStr string
  | JList "json list"
  | JDict "(string \<times> json) list"

text \<open>\<^verbatim>\<open>d[k] = v\<close>: an existing key keeps its place, a new key goes to the end.\<close>

abbreviation setitem :: "('k \<times> 'v) list \<Rightarrow> 'k \<Rightarrow> 'v \<Rightarrow> ('k \<times> 'v) list" where
  "setitem d k v \<equiv> AList.update k v d"

text \<open>\<^verbatim>\<open>d.update(e)\<close> for a dictionary \<open>e\<close>: the items of \<open>e\<close> are stored in order.\<close>

definition dict_update :: "('k \<times> 'v) list \<Rightarrow> ('k \<times> 'v) list \<Rightarrow> ('k \<times> 'v) list" where
  "dict_update d e = fold (\<lambda>(k, v) acc. setitem acc k v) e d"

fun wf_json :: "json \<Rightarrow> bool"
  and wf_items :: "(string \<times> json) list \<Rightarrow> bool"
  and wf_list :: "json list \<Rightarrow> bool" where
  "wf_json (JDict d) = (distinct (map fst d) \<and> wf_items d)"
| "wf_json (JList xs) = wf_list xs"
| "wf_json JNull = True"
| "wf_json (JBool b) = True"
| "wf_json (JInt n) = True"
| "wf_json (JStr s) = True"
| "wf_items [] = True"
| "wf_items (kv # d) = (wf_json (snd kv) \<and> wf_items d)"
| "wf_list [] = True"
| "wf_list (x # xs) = (wf_json x \<and> wf_list xs)"

datatype exc = TypeError | ValueError | KeyError | AttributeError

subsection \<open>Python's comparison of values\<close>

text \<open>
  \<^verbatim>\<open>==\<close> on the values above: a boolean equals the integer 0 or 1, lists are compared
  item by item, dictionaries have the same number of keys and equal values under every
  key, whatever the order of insertion.
\<close>

fun py_eq :: "json \<Rightarrow> json \<Rightarrow> bool"
  and list_eq :: "json list \<Rightarrow> json list \<Rightarrow> bool"
  and items_in :: "(string \<times> json) list \<Rightarrow> (string \<times> json) list \<Rightarrow> bool" where
  "py_eq JNull y = (y = JNull)"
| "py_eq (JBool a) y =
     (case y of JBool b \<Rightarrow> a = b | JInt n \<Rightarrow> n = (if a then 1 else 0) | _ \<Rightarrow> False)"
| "py_eq (JInt m) y =
     (case y of JInt n \<Rightarrow> m = n | JBool b \<Rightarrow> m = (if b then 1 else 0) | _ \<Rightarrow> False)"
| "py_eq (JStr s) y = (y = JStr s)"
| "py_eq (JList xs) y = (case y of JList ys \<Rightarrow> list_eq xs ys | _ \<Rightarrow> False)"
| "py_eq (JDict d) y =
     (case y of JDict e \<Rightarrow> length d = length e \<and> items_in d e | _ \<Rightarrow> False)"
| "list_eq [] ys = (ys = [])"
| "list_eq (x # xs) ys = (case ys of [] \<Rightarrow> False | y # ys' \<Rightarrow> py_eq x y \<and> list_eq xs ys')"
| "items_in [] e = True"
| "items_in (kv # d) e =
     ((case map_of e (fst kv) of None \<Rightarrow> False | Some w \<Rightarrow> py_eq (snd kv) w) \<and> items_in d e)"

section \<open>Filling a section with defaults\<close>

text \<open>
  The three dictionary operations of \<^verbatim>\<open>_copySettings\<close>, on whatever value \<^verbatim>\<open>local\<close> is.
  \<^verbatim>\<open>name in local\<close> is key membership on a dictionary, a substring test on a string,
  membership on a list, and a \<^verbatim>\<open>TypeError\<close> on null, a boolean or a number.
\<close>

fun is_substring :: "string \<Rightarrow> string \<Rightarrow> bool" where
  "is_substring n [] = (n = [])"
| "is_substring n (c # s) = (take (length n) (c # s) = n \<or> is_substring n s)"

fun py_contains :: "json \<Rightarrow> string \<Rightarrow> exc + bool" where
  "py_contains (JDict d) name = Inr (name \<in> set (map fst d))"
| "py_contains (JStr s) name = Inr (is_substring name s)"
| "py_contains (JList xs) name = Inr (JStr name \<in> set xs)"
| "py_contains JNull name = Inl TypeError"
| "py_contains (JBool b) name = Inl TypeError"
| "py_contains (JInt n) name = Inl TypeError"

fun py_setitem :: "json \<Rightarrow> string \<Rightarrow> json \<Rightarrow> exc + json" where
  "py_setitem (JDict d) name v = Inr (JDict (setitem d name v))"
| "py_setitem x name v = Inl TypeError"

fun py_getitem :: "json \<Rightarrow> string \<Rightarrow> exc + json" where
  "py_getitem (JDict d) name = (case map_of d name of None \<Rightarrow> Inl KeyError | Some v \<Rightarrow> Inr v)"
| "py_getitem x name = Inl TypeError"

text \<open>The values Python cannot iterate over: null, booleans and numbers.\<close>

fun not_iterable :: "json \<Rightarrow> bool" where
  "not_iterable JNull = True"
| "not_iterable (JBool b) = True"
| "not_iterable (JInt n) = True"
| "not_iterable v = False"

text \<open>
  \<^verbatim>\<open>_copySettings(local, default)\<close>: the loop over \<^verbatim>\<open>default.items()\<close>, with \<^verbatim>\<open>local\<close>
  threaded through it. The first exception ends the call.
\<close>

function (sequential) copySettings :: "json \<Rightarrow> (string \<times> json) list \<Rightarrow> exc + json" where
  "copySettings local [] = Inr local"
| "copySettings local ((name, val) # rest) =
     (case py_contains local name of
        Inl e \<Rightarrow> Inl e
      | Inr False \<Rightarrow>
          (case py_setitem local name val of
             Inl e \<Rightarrow> Inl e
           | Inr local' \<Rightarrow> copySettings local' rest)
      | Inr True \<Rightarrow>
          (case val of
             JDict dflt \<Rightarrow>
               (case py_getitem local name of
                  Inl e \<Rightarrow> Inl e
                | Inr sub \<Rightarrow>
                    (case copySettings sub dflt of
                       Inl e \<Rightarrow> Inl e
                     | Inr sub' \<Rightarrow>
                         (case py_setitem local name sub' of
                            Inl e \<Rightarrow> Inl e
                          | Inr local' \<Rightarrow> copySettings local' rest)))
           | _ \<Rightarrow> copySettings local rest))"
  by pat_completeness auto
termination
  by (relation "measure (\<lambda>(l, d). size_list (size_prod (\<lambda>_. 0) size) d)") auto

text \<open>
  The shape the defaults ask of a stored value: it is a dictionary, and wherever the
  defaults hold a dictionary under a key, the stored value lacks the key or holds a
  value of that shape under it.
\<close>

fun shape_ok :: "json \<Rightarrow> (string \<times> json) list \<Rightarrow> bool" where
  "shape_ok local [] = (case local of JDict d \<Rightarrow> True | _ \<Rightarrow> False)"
| "shape_ok local ((name, val) # rest) =
     (case local of
        JDict d \<Rightarrow>
          (case map_of d name of
             None \<Rightarrow> True
           | Some lv \<Rightarrow> (case val of JDict dflt \<Rightarrow> shape_ok lv dflt | _ \<Rightarrow> True))
          \<and> shape_ok local rest
      | _ \<Rightarrow> False)"

text \<open>A value holds every key of the defaults, and so on under the nested defaults.\<close>

fun has_keys :: "json \<Rightarrow> (string \<times> json) list \<Rightarrow> bool" where
  "has_keys r [] = True"
| "has_keys r ((name, val) # rest) =
     (case r of
        JDict d \<Rightarrow>
          (case map_of d name of
             None \<Rightarrow> False
           | Some rv \<Rightarrow> (case val of JDict dflt \<Rightarrow> has_keys rv dflt | _ \<Rightarrow> True))
          \<and> has_keys r rest
      | _ \<Rightarrow> False)"

text \<open>
  The items \<open>s\<close> of a stored dictionary are kept in the dictionary \<open>r\<close>: a key of \<open>s\<close>
  has in \<open>r\<close> the value it has in \<open>s\<close>, except where both \<open>s\<close> and the defaults hold a
  dictionary under it, and there the items of that dictionary are kept in the same way.
\<close>

fun keeps :: "(string \<times> json) list \<Rightarrow> (string \<times> json) list \<Rightarrow> (string \<times> json) list \<Rightarrow> bool"
  and kept :: "json option \<Rightarrow> json \<Rightarrow> json \<Rightarrow> bool" where
  "keeps [] r dflts = True"
| "keeps ((k, sv) # s) r dflts =
     ((case map_of r k of None \<Rightarrow> False | Some rv \<Rightarrow> kept (map_of dflts k) sv rv)
      \<and> keeps s r dflts)"
| "kept (Some (JDict dflt)) (JDict sd) (JDict rd) = keeps sd rd dflt"
| "kept dv sv rv = (rv = sv)"

section \<open>The settings store\<close>

text \<open>
  The keys of the top-level document. A file gives string keys; \<^verbatim>\<open>dict.update\<close> with a
  JSON array of pairs can store null or a number as a key (\<^verbatim>\<open>True\<close> and \<^verbatim>\<open>False\<close> are the
  keys 1 and 0).
\<close>

datatype pykey = KStr string | KInt int | KNone

type_synonym document = "(pykey \<times> json) list"

text \<open>What a call does to the disk: the effects of \<^verbatim>\<open>_writeConfig\<close>, oldest first.\<close>

datatype io_event =
    Opened string
  | Dumped string document
  | Moved string string

record local_config =
  settings :: document
  config_file :: string
  last_config_changed :: "int option"
  io_log :: "io_event list"

datatype 'a result =
    Returns 'a local_config
  | Raises exc local_config

fun state_of :: "'a result \<Rightarrow> local_config" where
  "state_of (Returns x st) = st"
| "state_of (Raises e st) = st"

text \<open>
  \<^verbatim>\<open>loadSectionSettings\<close>. \<^verbatim>\<open>self.settings()\<close> and the returned value are deep copies,
  which are the values themselves here.
\<close>

definition loadSectionSettings ::
  "pykey \<Rightarrow> (string \<times> json) list \<Rightarrow> local_config \<Rightarrow> json result" where
  "loadSectionSettings section default_settings st =
     (let local = (case map_of (settings st) section of None \<Rightarrow> JDict [] | Some v \<Rightarrow> v)
      in case copySettings local default_settings of
           Inl e \<Rightarrow> Raises e st
         | Inr filled \<Rightarrow> Returns filled (st\<lparr>settings := setitem (settings st) section filled\<rparr>))"

section \<open>Writing the document\<close>

text \<open>
  \<^verbatim>\<open>os.path.dirname\<close> and \<^verbatim>\<open>os.path.join\<close> as \<^verbatim>\<open>posixpath\<close> has them: the directory is the
  path up to its last slash, without trailing slashes unless it consists of slashes only.
\<close>

definition dirname :: "string \<Rightarrow> string" where
  "dirname p =
     (let head = rev (dropWhile (\<lambda>c. c \<noteq> CHR ''/'') (rev p))
      in if head \<noteq> [] \<and> head \<noteq> replicate (length head) (CHR ''/'')
         then rev (dropWhile (\<lambda>c. c = CHR ''/'') (rev head))
         else head)"

definition path_join :: "string \<Rightarrow> string \<Rightarrow> string" where
  "path_join a b =
     (if take 1 b = ''/'' then b
      else if a = [] \<or> last a = CHR ''/'' then a @ b
      else a @ ''/'' @ b)"

text \<open>
  What the disk does to one call of \<^verbatim>\<open>_writeConfig\<close>: the first step that raises
  \<^verbatim>\<open>OSError\<close>, or the modification time that \<^verbatim>\<open>os.stat\<close> reports after the move.
\<close>

datatype write_env = WrOpenFails | WrDumpFails | WrMoveFails | WrStatFails | WrOk int

fun is_str_key :: "pykey \<Rightarrow> bool" where
  "is_str_key (KStr s) = True"
| "is_str_key k = False"

text \<open>
  \<^verbatim>\<open>_writeConfig\<close>. The running version \<^verbatim>\<open>__version__\<close> comes from \<^verbatim>\<open>gns3/version.py\<close> and is
  the parameter \<open>ver\<close>. The version is stamped before the \<^verbatim>\<open>try\<close>; \<^verbatim>\<open>OSError\<close> is caught
  and ends the call. \<^verbatim>\<open>json.dump\<close> with \<^verbatim>\<open>sort_keys=True\<close> compares the keys of the
  document, and comparing the key \<^verbatim>\<open>"version"\<close> with a key that is not a string raises
  \<^verbatim>\<open>TypeError\<close>, which is not caught.
\<close>

definition writeConfig :: "string \<Rightarrow> write_env \<Rightarrow> local_config \<Rightarrow> unit result" where
  "writeConfig ver wr st =
     (let st1 = st\<lparr>settings := setitem (settings st) (KStr ''version'') (JStr ver)\<rparr>;
          temporary = path_join (dirname (config_file st1)) ''gns3_gui.tmp''
      in if wr = WrOpenFails then Returns () st1
         else
           let st2 = st1\<lparr>io_log := io_log st1 @ [Opened temporary]\<rparr>
           in if \<not> list_all is_str_key (map fst (settings st2)) then Raises TypeError st2
              else if wr = WrDumpFails then Returns () st2
              else
                let st3 = st2\<lparr>io_log := io_log st2 @ [Dumped temporary (settings st2)]\<rparr>
                in if wr = WrMoveFails then Returns () st3
                   else
                     let st4 = st3\<lparr>io_log := io_log st3 @ [Moved temporary (config_file st3)]\<rparr>
                     in case wr of
                          WrOk t \<Rightarrow> Returns () (st4\<lparr>last_config_changed := Some t\<rparr>)
                        | _ \<Rightarrow> Returns () st4)"

section \<open>The mutators\<close>

text \<open>
  \<^verbatim>\<open>saveSectionSettings(section, settings)\<close>, with a dictionary for \<^verbatim>\<open>settings\<close> as the
  docstring asks. A value without an \<^verbatim>\<open>update\<close> method under the section's name raises
  \<^verbatim>\<open>AttributeError\<close>.
\<close>

definition saveSectionSettings ::
  "string \<Rightarrow> write_env \<Rightarrow> pykey \<Rightarrow> (string \<times> json) list \<Rightarrow> local_config \<Rightarrow> unit result" where
  "saveSectionSettings ver wr section new st =
     (let st1 = (if section \<in> set (map fst (settings st)) then st
                 else st\<lparr>settings := setitem (settings st) section (JDict [])\<rparr>)
      in case map_of (settings st1) section of
           None \<Rightarrow> Raises KeyError st1
         | Some cur \<Rightarrow>
             if py_eq cur (JDict new) then Returns () st1
             else (case cur of
                     JDict d \<Rightarrow>
                       writeConfig ver wr
                         (st1\<lparr>settings := setitem (settings st1) section (JDict (dict_update d new))\<rparr>)
                   | _ \<Rightarrow> Raises AttributeError st1))"

text \<open>\<^verbatim>\<open>==\<close> on two documents: as many keys, and an equal value under every key.\<close>

fun doc_items_in :: "document \<Rightarrow> document \<Rightarrow> bool" where
  "doc_items_in [] e = True"
| "doc_items_in (kv # d) e =
     ((case map_of e (fst kv) of None \<Rightarrow> False | Some w \<Rightarrow> py_eq (snd kv) w) \<and> doc_items_in d e)"

definition doc_eq :: "document \<Rightarrow> document \<Rightarrow> bool" where
  "doc_eq d e = (length d = length e \<and> doc_items_in d e)"

text \<open>\<^verbatim>\<open>setSettings(settings)\<close>, with a dictionary for \<^verbatim>\<open>settings\<close>.\<close>

definition setSettings :: "string \<Rightarrow> write_env \<Rightarrow> document \<Rightarrow> local_config \<Rightarrow> unit result" where
  "setSettings ver wr new st =
     (if doc_eq (settings st) new then Returns () st
      else writeConfig ver wr (st\<lparr>settings := dict_update (settings st) new\<rparr>))"

section \<open>Reading the file\<close>

text \<open>
  What a path gives to one call of \<^verbatim>\<open>_readConfig\<close>: \<^verbatim>\<open>open\<close> raises \<^verbatim>\<open>OSError\<close>, or
  \<^verbatim>\<open>os.stat\<close> does, or the file has a modification time and \<^verbatim>\<open>json.load\<close> raises
  \<^verbatim>\<open>ValueError\<close> on its content, or returns a value.
\<close>

datatype file_view = OpenFails | StatFails | LoadFails int | Loads int json

text \<open>
  \<^verbatim>\<open>self._settings.update(config)\<close> for whatever \<^verbatim>\<open>json.load\<close> returned. A dictionary is
  merged key by key. Any other value is iterated as a sequence of pairs: null, a boolean
  or a number cannot be iterated (\<^verbatim>\<open>TypeError\<close>); an item that cannot be iterated raises
  \<^verbatim>\<open>TypeError\<close>, an item that does not have two elements raises \<^verbatim>\<open>ValueError\<close>, and a key
  that cannot be hashed raises \<^verbatim>\<open>TypeError\<close>. The pairs stored before an exception stay.
\<close>

fun hash_key :: "json \<Rightarrow> exc + pykey" where
  "hash_key JNull = Inr KNone"
| "hash_key (JBool b) = Inr (KInt (if b then 1 else 0))"
| "hash_key (JInt n) = Inr (KInt n)"
| "hash_key (JStr s) = Inr (KStr s)"
| "hash_key (JList xs) = Inl TypeError"
| "hash_key (JDict d) = Inl TypeError"

fun pair_of :: "json \<Rightarrow> exc + (json \<times> json)" where
  "pair_of (JList [a, b]) = Inr (a, b)"
| "pair_of (JList xs) = Inl ValueError"
| "pair_of (JStr [a, b]) = Inr (JStr [a], JStr [b])"
| "pair_of (JStr s) = Inl ValueError"
| "pair_of (JDict [ka, kb]) = Inr (JStr (fst ka), JStr (fst kb))"
| "pair_of (JDict d) = Inl ValueError"
| "pair_of JNull = Inl TypeError"
| "pair_of (JBool b) = Inl TypeError"
| "pair_of (JInt n) = Inl TypeError"

fun update_pairs :: "document \<Rightarrow> json list \<Rightarrow> exc option \<times> document" where
  "update_pairs d [] = (None, d)"
| "update_pairs d (x # xs) =
     (case pair_of x of
        Inl e \<Rightarrow> (Some e, d)
      | Inr kv \<Rightarrow>
          (case hash_key (fst kv) of
             Inl e \<Rightarrow> (Some e, d)
           | Inr key \<Rightarrow> update_pairs (setitem d key (snd kv)) xs))"

definition str_keys :: "(string \<times> json) list \<Rightarrow> document" where
  "str_keys e = map (\<lambda>kv. (KStr (fst kv), snd kv)) e"

fun py_update :: "document \<Rightarrow> json \<Rightarrow> exc option \<times> document" where
  "py_update d (JDict e) = (None, dict_update d (str_keys e))"
| "py_update d (JList xs) = update_pairs d xs"
| "py_update d (JStr s) = (if s = [] then (None, d) else (Some ValueError, d))"
| "py_update d JNull = (Some TypeError, d)"
| "py_update d (JBool b) = (Some TypeError, d)"
| "py_update d (JInt n) = (Some TypeError, d)"

text \<open>
  The loop at the end of \<^verbatim>\<open>_readConfig\<close>, over the keys the document has when the loop
  starts: every key whose value is a dictionary is passed to \<^verbatim>\<open>loadSectionSettings\<close>, with
  that dictionary as the defaults. The call stores under a key that exists, so the keys
  stay as they are during the loop. \<^verbatim>\<open>_readConfig\<close> returns an empty dictionary.
\<close>

fun reload_loop :: "pykey list \<Rightarrow> local_config \<Rightarrow> json result" where
  "reload_loop [] st = Returns (JDict []) st"
| "reload_loop (section # rest) st =
     (case map_of (settings st) section of
        None \<Rightarrow> Raises KeyError st
      | Some (JDict d) \<Rightarrow>
          (case loadSectionSettings section d st of
             Raises e st' \<Rightarrow> Raises e st'
           | Returns r st' \<Rightarrow> reload_loop rest st')
      | Some v \<Rightarrow> reload_loop rest st)"

definition reload_sections :: "local_config \<Rightarrow> json result" where
  "reload_sections st = reload_loop (map fst (settings st)) st"

text \<open>
  \<^verbatim>\<open>_readConfig(config_path)\<close>. The modification time is stored before \<^verbatim>\<open>json.load\<close> runs.
  \<^verbatim>\<open>ValueError\<close> and \<^verbatim>\<open>OSError\<close> are caught, any other exception of the \<^verbatim>\<open>try\<close> block leaves
  the call.
\<close>

definition readConfig :: "(string \<Rightarrow> file_view) \<Rightarrow> string \<Rightarrow> local_config \<Rightarrow> json result" where
  "readConfig fs config_path st =
     (case fs config_path of
        OpenFails \<Rightarrow> reload_sections st
      | StatFails \<Rightarrow> reload_sections st
      | LoadFails t \<Rightarrow> reload_sections (st\<lparr>last_config_changed := Some t\<rparr>)
      | Loads t config \<Rightarrow>
          (let r = py_update (settings st) config;
               st1 = st\<lparr>last_config_changed := Some t, settings := snd r\<rparr>
           in case fst r of
                None \<Rightarrow> reload_sections st1
              | Some e \<Rightarrow> if e = ValueError then reload_sections st1 else Raises e st1))"

fun is_dict :: "json \<Rightarrow> bool" where
  "is_dict (JDict d) = True"
| "is_dict v = False"

text \<open>Every value of the document is well formed.\<close>

definition wf_doc :: "document \<Rightarrow> bool" where
  "wf_doc d = list_all (\<lambda>kv. wf_json (snd kv)) d"

section \<open>The migration of an old document\<close>

definition old_server_path :: string where
  "old_server_path = ''/Applications/GNS3.app/Contents/Resources/server/Contents/MacOS/gns3server''"

definition new_server_path :: string where
  "new_server_path = ''/Applications/GNS3.app/Contents/MacOS/gns3server''"

text \<open>
  The two blocks that fill \<^verbatim>\<open>servers\<close>. Each returns the dictionary as it is when the
  block ends, with the exception that ended it, if any. \<^verbatim>\<open>copy.copy\<close> gives a dictionary
  of its own, so the path is rewritten in the copy only.
\<close>

definition migrate_local_server :: "document \<Rightarrow> json \<Rightarrow> exc option \<times> json" where
  "migrate_local_server doc servers =
     (case map_of doc (KStr ''LocalServer'') of
        None \<Rightarrow> (None, servers)
      | Some ls \<Rightarrow>
          (case py_setitem servers ''local_server'' ls of
             Inl e \<Rightarrow> (Some e, servers)
           | Inr servers1 \<Rightarrow>
               (case py_getitem ls ''path'' of
                  Inl e \<Rightarrow> (Some e, servers1)
                | Inr p \<Rightarrow>
                    if py_eq p (JStr old_server_path)
                    then (case py_setitem ls ''path'' (JStr new_server_path) of
                            Inl e \<Rightarrow> (Some e, servers1)
                          | Inr ls' \<Rightarrow>
                              (case py_setitem servers1 ''local_server'' ls' of
                                 Inl e \<Rightarrow> (Some e, servers1)
                               | Inr servers2 \<Rightarrow> (None, servers2)))
                    else (None, servers1))))"

definition migrate_remote_servers :: "document \<Rightarrow> json \<Rightarrow> exc option \<times> json" where
  "migrate_remote_servers doc servers =
     (case map_of doc (KStr ''RemoteServers'') of
        None \<Rightarrow> (None, servers)
      | Some rs \<Rightarrow>
          (case py_setitem servers ''remote_servers'' rs of
             Inl e \<Rightarrow> (Some e, servers)
           | Inr servers1 \<Rightarrow> (None, servers1)))"

text \<open>
  When the document has a \<^verbatim>\<open>Servers\<close> entry, \<^verbatim>\<open>servers\<close> is that very object, and what was
  stored in it before an exception is in the document. Otherwise \<^verbatim>\<open>servers\<close> is a fresh
  dictionary that reaches the document with the assignment only.
\<close>

definition servers_in_place :: "document \<Rightarrow> json \<Rightarrow> document" where
  "servers_in_place doc servers =
     (if KStr ''Servers'' \<in> set (map fst doc) then setitem doc (KStr ''Servers'') servers else doc)"

text \<open>The last block: the flag of the \<^verbatim>\<open>GUI\<close> section moves to \<^verbatim>\<open>MainWindow\<close>.\<close>

definition migrate_gui :: "local_config \<Rightarrow> unit result" where
  "migrate_gui st =
     (case map_of (settings st) (KStr ''GUI'') of
        None \<Rightarrow> Returns () st
      | Some gui \<Rightarrow>
          (let main_window =
                 (case map_of (settings st) (KStr ''MainWindow'') of None \<Rightarrow> JDict [] | Some m \<Rightarrow> m)
           in case gui of
                JDict g \<Rightarrow>
                  (case py_setitem main_window ''hide_getting_started_dialog''
                          (case map_of g ''hide_getting_started_dialog'' of
                             None \<Rightarrow> JBool False | Some v \<Rightarrow> v) of
                     Inl e \<Rightarrow> Raises e st
                   | Inr mw \<Rightarrow> Returns () (st\<lparr>settings := setitem (settings st) (KStr ''MainWindow'') mw\<rparr>))
              | _ \<Rightarrow> Raises AttributeError st))"

definition migrate_body :: "local_config \<Rightarrow> unit result" where
  "migrate_body st =
     (let doc = settings st;
          servers = (case map_of doc (KStr ''Servers'') of None \<Rightarrow> JDict [] | Some s \<Rightarrow> s);
          r1 = migrate_local_server doc servers
      in case fst r1 of
           Some e \<Rightarrow> Raises e (st\<lparr>settings := servers_in_place doc (snd r1)\<rparr>)
         | None \<Rightarrow>
             (let r2 = migrate_remote_servers doc (snd r1)
              in case fst r2 of
                   Some e \<Rightarrow> Raises e (st\<lparr>settings := servers_in_place doc (snd r2)\<rparr>)
                 | None \<Rightarrow> migrate_gui (st\<lparr>settings := setitem doc (KStr ''Servers'') (snd r2)\<rparr>)))"

text \<open>
  \<^verbatim>\<open>_migrateOldConfig\<close>. \<^verbatim>\<open>parse_version\<close> belongs to \<^verbatim>\<open>pkg_resources\<close>; the test
  \<^verbatim>\<open>parse_version(v) < parse_version("1.4.0")\<close> is the parameter \<open>older\<close>, which gives a truth
  value or raises.
\<close>

definition migrateOldConfig :: "(json \<Rightarrow> exc + bool) \<Rightarrow> local_config \<Rightarrow> unit result" where
  "migrateOldConfig older st =
     (case (case map_of (settings st) (KStr ''version'') of None \<Rightarrow> Inr True | Some v \<Rightarrow> older v) of
        Inl e \<Rightarrow> Raises e st
      | Inr False \<Rightarrow> Returns () st
      | Inr True \<Rightarrow> migrate_body st)"

section \<open>The order of versions\<close>

text \<open>
  Modelled from the spec: \<^verbatim>\<open>parse_version\<close> of \<^verbatim>\<open>pkg_resources\<close>, which the migration calls
  and the repository does not contain. The spec gives the order as dotted-numeric: a
  version is the list of the numbers between its dots, and versions compare as these
  lists do, number by number. A string with an empty or non-numeric part has no version
  here.
\<close>

fun split_dots :: "string \<Rightarrow> string list" where
  "split_dots [] = [[]]"
| "split_dots (c # s) =
     (if c = CHR ''.'' then [] # split_dots s
      else (case split_dots s of [] \<Rightarrow> [[c]] | p # ps \<Rightarrow> (c # p) # ps))"

definition digit_val :: "char \<Rightarrow> nat option" where
  "digit_val c =
     (let n = (of_char c :: nat) in if 48 \<le> n \<and> n \<le> 57 then Some (n - 48) else None)"

fun number_of :: "nat \<Rightarrow> string \<Rightarrow> nat option" where
  "number_of acc [] = Some acc"
| "number_of acc (c # s) =
     (case digit_val c of None \<Rightarrow> None | Some v \<Rightarrow> number_of (10 * acc + v) s)"

fun numbers_of :: "string list \<Rightarrow> nat list option" where
  "numbers_of [] = Some []"
| "numbers_of (p # ps) =
     (if p = [] then None
      else (case number_of 0 p of
              None \<Rightarrow> None
            | Some n \<Rightarrow> (case numbers_of ps of None \<Rightarrow> None | Some ns \<Rightarrow> Some (n # ns))))"

definition parse_version :: "string \<Rightarrow> nat list option" where
  "parse_version s = numbers_of (split_dots s)"

fun numbers_lt :: "nat list \<Rightarrow> nat list \<Rightarrow> bool" where
  "numbers_lt [] [] = False"
| "numbers_lt [] (y # ys) = True"
| "numbers_lt (x # xs) [] = False"
| "numbers_lt (x # xs) (y # ys) = (x < y \<or> (x = y \<and> numbers_lt xs ys))"

definition version_lt :: "string \<Rightarrow> string \<Rightarrow> bool option" where
  "version_lt a b =
     (case parse_version a of
        None \<Rightarrow> None
      | Some m \<Rightarrow> (case parse_version b of None \<Rightarrow> None | Some n \<Rightarrow> Some (numbers_lt m n)))"

text \<open>
  Modelled from the spec: the test of the migration, \<^verbatim>\<open>parse_version(v) < parse_version("1.4.0")\<close>,
  on a stored value. The spec describes the version as a dotted-numeric string; any other
  value is refused here.
\<close>

definition older_than_cutoff :: "json \<Rightarrow> exc + bool" where
  "older_than_cutoff v =
     (case v of
        JStr s \<Rightarrow> (case version_lt s ''1.4.0'' of None \<Rightarrow> Inl ValueError | Some b \<Rightarrow> Inr b)
      | _ \<Rightarrow> Inl TypeError)"

text \<open>The order of strings by their characters, for comparison.\<close>

fun lexical_lt :: "string \<Rightarrow> string \<Rightarrow> bool" where
  "lexical_lt [] [] = False"
| "lexical_lt [] (y # ys) = True"
| "lexical_lt (x # xs) [] = False"
| "lexical_lt (x # xs) (y # ys) =
     ((of_char x :: nat) < of_char y \<or> (x = y \<and> lexical_lt xs ys))"

section \<open>Properties of the default filling\<close>

lemma cs_dict: "copySettings (JDict l) D = Inr r \<Longrightarrow> \<exists>rd. r = JDict rd"
  by (induction "JDict l" D arbitrary: l r rule: copySettings.induct)
     (auto split: sum.splits bool.splits json.splits option.splits)

lemma cs_outside:
  "copySettings (JDict l) D = Inr (JDict r) \<Longrightarrow> k \<notin> fst ` set D \<Longrightarrow> map_of r k = map_of l k"
  by (induction "JDict l" D arbitrary: l r rule: copySettings.induct)
     (auto split: sum.splits bool.splits json.splits option.splits simp: update_conv')

lemma shape_ok_dict: "shape_ok local D \<Longrightarrow> \<exists>d. local = JDict d"
  by (cases D; cases local) auto

lemma shape_ok_update:
  "name \<notin> fst ` set D \<Longrightarrow> shape_ok (JDict (setitem l name v)) D = shape_ok (JDict l) D"
  by (induction D) (auto simp: update_conv' split: option.splits json.splits)

lemma mem_keys: "map_of l k = Some v \<Longrightarrow> k \<in> fst ` set l"
  by (metis map_of_eq_None_iff option.distinct(1))

lemma cs_new:
  "name \<notin> fst ` set l \<Longrightarrow>
   copySettings (JDict l) ((name, val) # rest) = copySettings (JDict (setitem l name val)) rest"
  by simp

lemma cs_plain:
  "map_of l name = Some lv \<Longrightarrow> \<forall>d. val \<noteq> JDict d \<Longrightarrow>
   copySettings (JDict l) ((name, val) # rest) = copySettings (JDict l) rest"
  by (frule mem_keys, cases val) simp_all

lemma cs_nested:
  "map_of l name = Some lv \<Longrightarrow>
   copySettings (JDict l) ((name, JDict dflt) # rest) =
     (case copySettings lv dflt of
        Inl e \<Rightarrow> Inl e
      | Inr sub \<Rightarrow> copySettings (JDict (setitem l name sub)) rest)"
  by (frule mem_keys) (simp split: sum.splits)

lemma cs_induct [consumes 0, case_names Nil New Plain Nested]:
  assumes nil: "\<And>l. P l []"
    and new: "\<And>l name val rest.
      name \<notin> fst ` set l \<Longrightarrow> P (setitem l name val) rest \<Longrightarrow> P l ((name, val) # rest)"
    and plain: "\<And>l name val rest lv.
      map_of l name = Some lv \<Longrightarrow> \<forall>d. val \<noteq> JDict d \<Longrightarrow> P l rest \<Longrightarrow> P l ((name, val) # rest)"
    and nested: "\<And>l name dflt rest lv.
      map_of l name = Some lv \<Longrightarrow>
      (\<And>ld. lv = JDict ld \<Longrightarrow> P ld dflt) \<Longrightarrow>
      (\<And>sub. copySettings lv dflt = Inr sub \<Longrightarrow> P (setitem l name sub) rest) \<Longrightarrow>
      P l ((name, JDict dflt) # rest)"
  shows "P l D"
proof (induction "JDict l" D arbitrary: l rule: copySettings.induct)
  case 1
  show ?case by (rule nil)
next
  case (2 name val rest)
  show ?case
  proof (cases "map_of l name")
    case None
    then have fresh: "name \<notin> fst ` set l" by (simp add: map_of_eq_None_iff)
    have "P (setitem l name val) rest"
      by (rule "2.hyps"(8)[where b = False]) (use fresh in auto)
    with fresh show ?thesis by (rule new)
  next
    case (Some lv)
    then have mem: "name \<in> fst ` set l" by (rule mem_keys)
    show ?thesis
    proof (cases "\<exists>d. val = JDict d")
      case False
      have "P l rest"
      proof (cases val)
        case JNull
        show ?thesis by (rule "2.hyps"(1)[where b = True]) (use mem JNull in auto)
      next
        case (JBool x)
        show ?thesis by (rule "2.hyps"(2)[where b = True]) (use mem JBool in auto)
      next
        case (JInt x)
        show ?thesis by (rule "2.hyps"(3)[where b = True]) (use mem JInt in auto)
      next
        case (JStr x)
        show ?thesis by (rule "2.hyps"(4)[where b = True]) (use mem JStr in auto)
      next
        case (JList x)
        show ?thesis by (rule "2.hyps"(5)[where b = True]) (use mem JList in auto)
      next
        case (JDict x)
        with False show ?thesis by simp
      qed
      with Some False show ?thesis by (auto intro: plain)
    next
      case True
      then obtain dflt where val: "val = JDict dflt" by blast
      have a: "\<And>ld. lv = JDict ld \<Longrightarrow> P ld dflt"
        by (rule "2.hyps"(6)[where b = True]) (use mem val Some in auto)
      have b: "\<And>sub. copySettings lv dflt = Inr sub \<Longrightarrow> P (setitem l name sub) rest"
        by (rule "2.hyps"(7)[where b = True and ba = lv]) (use mem val Some in auto)
      show ?thesis unfolding val using Some a b by (rule nested)
    qed
  qed
qed

declare copySettings.simps(2) [simp del]

lemma wf_items_lookup: "wf_items d \<Longrightarrow> map_of d k = Some v \<Longrightarrow> wf_json v"
  by (induction d) (auto split: if_splits)

lemma wf_items_update: "wf_items d \<Longrightarrow> wf_json v \<Longrightarrow> wf_items (setitem d k v)"
  by (induction d) auto

lemma wf_setitem: "wf_json (JDict d) \<Longrightarrow> wf_json v \<Longrightarrow> wf_json (JDict (setitem d k v))"
  by (simp add: wf_items_update distinct_update)

lemma cs_nondict:
  "\<forall>d. local \<noteq> JDict d \<Longrightarrow> copySettings local D = Inr r \<Longrightarrow> r = local"
proof (induction D)
  case Nil
  then show ?case by simp
next
  case (Cons a D)
  obtain name val where a: "a = (name, val)" by (cases a)
  from Cons.prems(2) have "copySettings local D = Inr r"
    unfolding a using Cons.prems(1)
    by (cases local; cases val)
       (auto simp: copySettings.simps(2) split: sum.splits bool.splits if_splits)
  with Cons show ?case by simp
qed

lemma cs_total:
  "shape_ok (JDict l) D \<Longrightarrow> wf_json (JDict D) \<Longrightarrow> \<exists>r. copySettings (JDict l) D = Inr (JDict r)"
proof (induction l D rule: cs_induct)
  case (Nil l)
  show ?case by simp
next
  case (New l name val rest)
  then show ?case by (simp add: cs_new shape_ok_update)
next
  case (Plain l name val rest lv)
  then show ?case by (simp add: cs_plain)
next
  case (Nested l name dflt rest lv)
  from Nested.prems Nested.hyps have "shape_ok lv dflt" by simp
  then obtain ld where ld: "lv = JDict ld" using shape_ok_dict by blast
  with Nested.IH(1)[OF ld] Nested.prems Nested.hyps
  obtain sd where sd: "copySettings lv dflt = Inr (JDict sd)" by auto
  from Nested.IH(2)[OF sd] Nested.prems show ?case
    by (simp add: cs_nested[OF Nested.hyps] sd shape_ok_update)
qed

lemma cs_wf:
  "copySettings (JDict l) D = Inr r \<Longrightarrow> wf_json (JDict l) \<Longrightarrow> wf_json (JDict D) \<Longrightarrow> wf_json r"
proof (induction l D arbitrary: r rule: cs_induct)
  case (Nil l)
  then show ?case by simp
next
  case (New l name val rest)
  from New.prems New.hyps have "copySettings (JDict (setitem l name val)) rest = Inr r"
    by (simp add: cs_new)
  moreover have "wf_json (JDict (setitem l name val))"
    using New.prems by (intro wf_setitem) auto
  ultimately show ?case using New.IH New.prems by auto
next
  case (Plain l name val rest lv)
  then show ?case by (simp add: cs_plain)
next
  case (Nested l name dflt rest lv)
  from Nested.prems(1) obtain sub where sub: "copySettings lv dflt = Inr sub"
    and r: "copySettings (JDict (setitem l name sub)) rest = Inr r"
    by (auto simp: cs_nested[OF Nested.hyps] split: sum.splits)
  have wflv: "wf_json lv" using Nested.prems(2) Nested.hyps wf_items_lookup by auto
  have "wf_json sub"
  proof (cases lv)
    case (JDict ld)
    from Nested.IH(1)[OF JDict sub[unfolded JDict]] wflv JDict Nested.prems(3)
    show ?thesis by auto
  qed (use sub wflv cs_nondict[of lv dflt sub] in auto)
  then have "wf_json (JDict (setitem l name sub))"
    using Nested.prems(2) by (intro wf_setitem) auto
  from Nested.IH(2)[OF sub r this] Nested.prems(3) show ?case by auto
qed

lemma wf_items_mem: "wf_items d \<Longrightarrow> (k, v) \<in> set d \<Longrightarrow> wf_json v"
  by (induction d) auto

lemma has_keys_sub:
  "distinct (map fst d) \<Longrightarrow> wf_items d \<Longrightarrow> set D \<subseteq> set d \<Longrightarrow> has_keys (JDict d) D"
proof (induction "JDict d" D arbitrary: d rule: has_keys.induct)
  case 1
  show ?case by simp
next
  case (2 name val rest)
  from "2.prems" have mem: "(name, val) \<in> set d" by simp
  with "2.prems"(1) have look: "map_of d name = Some val" by simp
  have rest: "has_keys (JDict d) rest"
    using "2.hyps"(2) "2.prems" by simp
  have nested: "has_keys val dflt" if "val = JDict dflt" for dflt
  proof -
    have "wf_json (JDict dflt)" using wf_items_mem[OF "2.prems"(2) mem] that by simp
    then show ?thesis
      using "2.hyps"(1)[of d dflt dflt] look that by simp
  qed
  show ?case using look rest nested by (simp split: json.splits)
qed

lemma has_keys_self: "wf_json (JDict d) \<Longrightarrow> has_keys (JDict d) d"
  by (simp add: has_keys_sub)

lemma has_keys_update:
  "name \<notin> fst ` set D \<Longrightarrow> has_keys (JDict (setitem l name v)) D = has_keys (JDict l) D"
  by (induction D) (auto simp: update_conv' split: option.splits json.splits)


lemma cs_has_keys:
  "copySettings (JDict l) D = Inr (JDict r) \<Longrightarrow> shape_ok (JDict l) D \<Longrightarrow> wf_json (JDict D) \<Longrightarrow>
   has_keys (JDict r) D"
proof (induction l D arbitrary: r rule: cs_induct)
  case (Nil l)
  show ?case by simp
next
  case (New l name val rest)
  from New.prems have fresh: "name \<notin> fst ` set rest" and wfr: "wf_json (JDict rest)"
    and wfv: "wf_json val" by auto
  from New.prems New.hyps have r: "copySettings (JDict (setitem l name val)) rest = Inr (JDict r)"
    by (simp add: cs_new)
  have "has_keys (JDict r) rest"
    using New.IH[OF r] New.prems fresh by (simp add: shape_ok_update)
  moreover have "map_of r name = Some val"
    using cs_outside[OF r fresh] by (simp add: update_conv')
  moreover have "has_keys val dflt" if "val = JDict dflt" for dflt
    using wfv that has_keys_self by simp
  ultimately show ?case by (simp split: json.splits)
next
  case (Plain l name val rest lv)
  from Plain.prems have fresh: "name \<notin> fst ` set rest" by auto
  from Plain.prems Plain.hyps have r: "copySettings (JDict l) rest = Inr (JDict r)"
    by (simp add: cs_plain)
  have "has_keys (JDict r) rest" using Plain.IH[OF r] Plain.prems by simp
  moreover have "map_of r name = Some lv"
    using cs_outside[OF r fresh] Plain.hyps by simp
  ultimately show ?case using Plain.hyps by (cases val) simp_all
next
  case (Nested l name dflt rest lv)
  from Nested.prems have fresh: "name \<notin> fst ` set rest" by auto
  from Nested.prems Nested.hyps have "shape_ok lv dflt" by simp
  then obtain ld where ld: "lv = JDict ld" using shape_ok_dict by blast
  from Nested.prems(1) obtain sub where sub: "copySettings lv dflt = Inr sub"
    and r: "copySettings (JDict (setitem l name sub)) rest = Inr (JDict r)"
    by (auto simp: cs_nested[OF Nested.hyps] split: sum.splits)
  from sub ld obtain sd where sd: "sub = JDict sd" using cs_dict by blast
  have "has_keys (JDict sd) dflt"
    using Nested.IH(1)[OF ld, of sd] sub ld sd Nested.prems Nested.hyps by simp
  moreover have "has_keys (JDict r) rest"
    using Nested.IH(2)[OF sub r] Nested.prems fresh by (simp add: shape_ok_update)
  moreover have "map_of r name = Some (JDict sd)"
    using cs_outside[OF r fresh] sd by (simp add: update_conv')
  ultimately show ?case by simp
qed

lemma keeps_iff:
  "keeps s r D =
    (\<forall>k sv. (k, sv) \<in> set s \<longrightarrow>
       (case map_of r k of None \<Rightarrow> False | Some rv \<Rightarrow> kept (map_of D k) sv rv))"
  by (induction s) auto

lemma keepsI:
  assumes "\<And>k sv. (k, sv) \<in> set s \<Longrightarrow> \<exists>rv. map_of r k = Some rv \<and> kept (map_of D k) sv rv"
  shows "keeps s r D"
  unfolding keeps_iff
proof (intro allI impI)
  fix k sv assume "(k, sv) \<in> set s"
  from assms[OF this] show "case map_of r k of None \<Rightarrow> False | Some rv \<Rightarrow> kept (map_of D k) sv rv"
    by auto
qed

lemma keepsD:
  assumes "keeps s r D" and "(k, sv) \<in> set s"
  shows "\<exists>rv. map_of r k = Some rv \<and> kept (map_of D k) sv rv"
proof -
  from assms have "case map_of r k of None \<Rightarrow> False | Some rv \<Rightarrow> kept (map_of D k) sv rv"
    unfolding keeps_iff by blast
  then show ?thesis by (cases "map_of r k") auto
qed

lemma kept_plain: "\<forall>d. dv \<noteq> Some (JDict d) \<Longrightarrow> kept dv sv rv = (rv = sv)"
  by (cases "(dv, sv, rv)" rule: kept.cases) auto

lemma set_update_other:
  "k \<noteq> name \<Longrightarrow> (k, v) \<in> set l \<Longrightarrow> (k, v) \<in> set (setitem l name x)"
  by (induction l) auto

lemma cs_keeps:
  "copySettings (JDict l) D = Inr (JDict r) \<Longrightarrow> shape_ok (JDict l) D \<Longrightarrow> wf_json (JDict D) \<Longrightarrow>
   wf_json (JDict l) \<Longrightarrow> keeps l r D"
proof (induction l D arbitrary: r rule: cs_induct)
  case (Nil l)
  then have "map_of r k = Some v" if "(k, v) \<in> set l" for k v
    using that by simp
  then show ?case by (intro keepsI) (simp add: kept_plain)
next
  case (New l name val rest)
  from New.prems have fresh: "name \<notin> fst ` set rest" and wfv: "wf_json val" by auto
  from New.prems New.hyps have r: "copySettings (JDict (setitem l name val)) rest = Inr (JDict r)"
    by (simp add: cs_new)
  have "wf_json (JDict (setitem l name val))"
    using New.prems(4) wfv by (rule wf_setitem)
  then have IH: "keeps (setitem l name val) r rest"
    using New.IH[OF r] New.prems fresh by (simp add: shape_ok_update)
  show ?case
  proof (rule keepsI)
    fix k sv assume mem: "(k, sv) \<in> set l"
    with New.hyps have ne: "k \<noteq> name" by force
    with mem have "(k, sv) \<in> set (setitem l name val)" by (simp add: set_update_other)
    from keepsD[OF IH this] ne
    show "\<exists>rv. map_of r k = Some rv \<and> kept (map_of ((name, val) # rest) k) sv rv"
      by simp
  qed
next
  case (Plain l name val rest lv)
  from Plain.prems have fresh: "name \<notin> fst ` set rest" by auto
  from Plain.prems Plain.hyps have r: "copySettings (JDict l) rest = Inr (JDict r)"
    by (simp add: cs_plain)
  have IH: "keeps l r rest" using Plain.IH[OF r] Plain.prems by simp
  have rname: "map_of r name = Some lv"
    using cs_outside[OF r fresh] Plain.hyps by simp
  show ?case
  proof (rule keepsI)
    fix k sv assume mem: "(k, sv) \<in> set l"
    show "\<exists>rv. map_of r k = Some rv \<and> kept (map_of ((name, val) # rest) k) sv rv"
    proof (cases "k = name")
      case True
      with mem Plain.prems(4) Plain.hyps(1) have "sv = lv" by simp
      with True rname Plain.hyps(2) show ?thesis by (simp add: kept_plain)
    next
      case False
      with keepsD[OF IH mem] show ?thesis by simp
    qed
  qed
next
  case (Nested l name dflt rest lv)
  from Nested.prems have fresh: "name \<notin> fst ` set rest" by auto
  from Nested.prems Nested.hyps have sh: "shape_ok lv dflt" by simp
  then obtain ld where ld: "lv = JDict ld" using shape_ok_dict by blast
  from Nested.prems(1) obtain sub where sub: "copySettings lv dflt = Inr sub"
    and r: "copySettings (JDict (setitem l name sub)) rest = Inr (JDict r)"
    by (auto simp: cs_nested[OF Nested.hyps] split: sum.splits)
  from sub ld obtain sd where sd: "sub = JDict sd" using cs_dict by blast
  have wflv: "wf_json lv" using Nested.prems(4) Nested.hyps wf_items_lookup by auto
  have wfd: "wf_json (JDict dflt)" using Nested.prems(3) by simp
  have IH1: "keeps ld sd dflt"
    using Nested.IH(1)[OF ld, of sd] sub ld sd sh wfd wflv by simp
  have "wf_json sub" using cs_wf[of ld dflt sub] sub ld wflv wfd by simp
  then have "wf_json (JDict (setitem l name sub))"
    using Nested.prems(4) wf_setitem by blast
  then have IH2: "keeps (setitem l name sub) r rest"
    using Nested.IH(2)[OF sub r] Nested.prems fresh by (simp add: shape_ok_update)
  have rname: "map_of r name = Some (JDict sd)"
    using cs_outside[OF r fresh] sd by (simp add: update_conv')
  show ?case
  proof (rule keepsI)
    fix k sv assume mem: "(k, sv) \<in> set l"
    show "\<exists>rv. map_of r k = Some rv \<and> kept (map_of ((name, JDict dflt) # rest) k) sv rv"
    proof (cases "k = name")
      case True
      with mem Nested.prems(4) Nested.hyps(1) have "sv = lv" by simp
      with True rname ld IH1 show ?thesis by simp
    next
      case False
      with mem have "(k, sv) \<in> set (setitem l name sub)" by (simp add: set_update_other)
      from keepsD[OF IH2 this] False show ?thesis by simp
    qed
  qed
qed

lemma cs_only_TypeError: "copySettings local D = Inl e \<Longrightarrow> e = TypeError"
proof (induction local D rule: copySettings.induct)
  case (1 local)
  then show ?case by simp
next
  case (2 local name val rest)
  show ?case
    using "2.prems" "2.IH"
    by (cases local; cases val)
       (auto simp: copySettings.simps(2) map_of_eq_None_iff rev_image_eqI split: sum.splits bool.splits option.splits if_splits)
qed


lemma cs_scalar_raises:
  "not_iterable local \<Longrightarrow> D \<noteq> [] \<Longrightarrow> copySettings local D = Inl TypeError"
  by (cases D; cases "hd D"; cases local) (auto simp: copySettings.simps(2))

lemma cs_reaches:
  "map_of l k = Some lv \<Longrightarrow> not_iterable lv \<Longrightarrow>
   map_of D k = Some (JDict dflt) \<Longrightarrow> dflt \<noteq> [] \<Longrightarrow>
   copySettings (JDict l) D = Inl TypeError"
proof (induction l D rule: cs_induct)
  case (Nil l)
  then show ?case by simp
next
  case (New l name val rest)
  from New.hyps New.prems(1) have ne: "k \<noteq> name" by (auto dest: mem_keys)
  with New.prems have "map_of (setitem l name val) k = Some lv" "map_of rest k = Some (JDict dflt)"
    by (simp_all add: update_conv')
  with New.IH New.prems New.hyps show ?case by (simp add: cs_new)
next
  case (Plain l name val rest lv')
  from Plain.hyps Plain.prems have ne: "k \<noteq> name" by auto
  with Plain.prems have "map_of rest k = Some (JDict dflt)" by simp
  with Plain.IH Plain.prems Plain.hyps show ?case by (simp add: cs_plain)
next
  case (Nested l name dflt' rest lv')
  show ?case
  proof (cases "k = name")
    case True
    with Nested.prems Nested.hyps have "lv' = lv" "dflt' = dflt" by auto
    with Nested.prems have "copySettings lv' dflt' = Inl TypeError"
      by (intro cs_scalar_raises) auto
    then show ?thesis by (simp add: cs_nested[OF Nested.hyps])
  next
    case False
    with Nested.prems have rest: "map_of rest k = Some (JDict dflt)" by simp
    show ?thesis
    proof (cases "copySettings lv' dflt'")
      case (Inl e)
      then show ?thesis using cs_only_TypeError[OF Inl] by (simp add: cs_nested[OF Nested.hyps])
    next
      case (Inr sub)
      have "map_of (setitem l name sub) k = Some lv"
        using False Nested.prems(1) by (simp add: update_conv')
      from Nested.IH(2)[OF Inr this Nested.prems(2) rest Nested.prems(4)] Inr
      show ?thesis by (simp add: cs_nested[OF Nested.hyps])
    qed
  qed
qed

section \<open>Properties of the store operations\<close>

lemma dict_update_other:
  "k \<notin> fst ` set e \<Longrightarrow> map_of (dict_update d e) k = map_of d k"
  unfolding dict_update_def
  by (induction e arbitrary: d) (auto simp: update_conv')

lemma map_of_None_keys: "map_of e k = None \<Longrightarrow> k \<notin> fst ` set e"
  by (simp add: map_of_eq_None_iff)

lemma dict_update_dom:
  "fst ` set d \<subseteq> fst ` set (dict_update d e)"
  unfolding dict_update_def
proof (induction e arbitrary: d)
  case Nil
  show ?case by simp
next
  case (Cons kv e)
  have "fst ` set d \<subseteq> fst ` set (setitem d (fst kv) (snd kv))"
    by (auto simp: dom_update)
  also have "\<dots> \<subseteq> fst ` set (fold (\<lambda>(k, v) acc. setitem acc k v) e (setitem d (fst kv) (snd kv)))"
    by (rule Cons.IH)
  finally show ?case by (cases kv) simp
qed

lemma writeConfig_settings:
  "settings (state_of (writeConfig ver wr st)) = setitem (settings st) (KStr ''version'') (JStr ver)"
  by (cases wr) (simp_all add: writeConfig_def Let_def)

lemma writeConfig_open_fails:
  "writeConfig ver WrOpenFails st =
     Returns () (st\<lparr>settings := setitem (settings st) (KStr ''version'') (JStr ver)\<rparr>)"
  by (simp add: writeConfig_def Let_def)

lemma writeConfig_ok:
  "list_all is_str_key (map fst (settings st)) \<Longrightarrow>
   writeConfig ver (WrOk t) st =
     Returns ()
       (st\<lparr>settings := setitem (settings st) (KStr ''version'') (JStr ver),
           last_config_changed := Some t,
           io_log := io_log st @
             [Opened (path_join (dirname (config_file st)) ''gns3_gui.tmp''),
              Dumped (path_join (dirname (config_file st)) ''gns3_gui.tmp'')
                (setitem (settings st) (KStr ''version'') (JStr ver)),
              Moved (path_join (dirname (config_file st)) ''gns3_gui.tmp'') (config_file st)]\<rparr>)"
proof -
  have "list_all is_str_key (map fst (setitem (settings st) (KStr ''version'') (JStr ver)))"
    if "list_all is_str_key (map fst (settings st))"
    using that by (induction "settings st" arbitrary: st) (auto simp: list_all_iff update_keys)
  then show "list_all is_str_key (map fst (settings st)) \<Longrightarrow> ?thesis"
    by (simp add: writeConfig_def Let_def)
qed

lemma save_equal:
  assumes "(case map_of (settings st) section of None \<Rightarrow> d = [] | Some v \<Rightarrow> v = JDict d)"
    and "py_eq (JDict d) (JDict new)"
  shows "saveSectionSettings ver wr section new st =
           Returns () (st\<lparr>settings := setitem (settings st) section (JDict d)\<rparr>)"
proof (cases "map_of (settings st) section")
  case None
  then have "section \<notin> set (map fst (settings st))" by (simp add: map_of_eq_None_iff)
  with None assms show ?thesis
    by (simp add: saveSectionSettings_def Let_def update_conv')
next
  case (Some v)
  from mem_keys[OF Some] have "section \<in> set (map fst (settings st))" by simp
  with Some assms show ?thesis
    by (simp add: saveSectionSettings_def Let_def update_triv)
qed

lemma save_differs:
  assumes "(case map_of (settings st) section of None \<Rightarrow> d = [] | Some v \<Rightarrow> v = JDict d)"
    and "\<not> py_eq (JDict d) (JDict new)"
  shows "saveSectionSettings ver wr section new st =
           writeConfig ver wr (st\<lparr>settings := setitem (settings st) section (JDict (dict_update d new))\<rparr>)"
proof (cases "map_of (settings st) section")
  case None
  then have "section \<notin> set (map fst (settings st))" by (simp add: map_of_eq_None_iff)
  with None assms show ?thesis
    by (simp add: saveSectionSettings_def Let_def update_conv')
next
  case (Some v)
  from mem_keys[OF Some] have "section \<in> set (map fst (settings st))" by simp
  with Some assms show ?thesis
    by (auto simp: saveSectionSettings_def Let_def)
qed

lemma migrate_gui_keeps:
  "k \<noteq> KStr ''MainWindow'' \<Longrightarrow> map_of (settings (state_of (migrate_gui st))) k = map_of (settings st) k"
  by (auto simp: migrate_gui_def Let_def update_conv' split: option.splits json.splits sum.splits)

lemma str_keys_update:
  "is_str_key k \<Longrightarrow> list_all is_str_key (map fst d) \<Longrightarrow> list_all is_str_key (map fst (setitem d k v))"
  by (induction d) (auto simp: list_all_iff)

lemma writeConfig_returns:
  "list_all is_str_key (map fst (settings st)) \<Longrightarrow> \<exists>st'. writeConfig ver wr st = Returns () st'"
  by (cases wr) (simp_all add: writeConfig_def Let_def str_keys_update)

subsection \<open>The migration run twice\<close>

lemma mls_fix:
  "migrate_local_server doc sv = (e, r) \<Longrightarrow>
   map_of doc' (KStr ''LocalServer'') = map_of doc (KStr ''LocalServer'') \<Longrightarrow>
   migrate_local_server doc' r = (e, r)"
  by (cases sv)
     (auto simp: migrate_local_server_def update_triv update_conv'
           split: option.splits sum.splits if_splits json.splits)

lemma mrs_fix:
  "migrate_remote_servers doc sv = (e, r) \<Longrightarrow>
   map_of doc' (KStr ''RemoteServers'') = map_of doc (KStr ''RemoteServers'') \<Longrightarrow>
   migrate_remote_servers doc' r = (e, r)"
  by (cases sv)
     (auto simp: migrate_remote_servers_def update_triv update_conv'
           split: option.splits sum.splits if_splits json.splits)

lemma mls_after_mrs:
  "migrate_local_server doc sv = (None, r1) \<Longrightarrow>
   migrate_remote_servers doc r1 = (e2, r2) \<Longrightarrow>
   map_of doc' (KStr ''LocalServer'') = map_of doc (KStr ''LocalServer'') \<Longrightarrow>
   migrate_local_server doc' r2 = (None, r2)"
  by (cases sv)
     (auto simp: migrate_local_server_def migrate_remote_servers_def update_triv update_conv'
           split: option.splits sum.splits if_splits json.splits)

lemma migrate_gui_idem:
  "migrate_gui (state_of (migrate_gui st)) = migrate_gui st"
proof (cases "map_of (settings st) (KStr ''GUI'')")
  case None
  then show ?thesis by (simp add: migrate_gui_def)
next
  case (Some gui)
  show ?thesis
  proof (cases gui)
    case (JDict g)
    define f where "f = (case map_of g ''hide_getting_started_dialog'' of
                           None \<Rightarrow> JBool False | Some v \<Rightarrow> v)"
    define mw where "mw = (case map_of (settings st) (KStr ''MainWindow'') of
                             None \<Rightarrow> JDict [] | Some m \<Rightarrow> m)"
    show ?thesis
    proof (cases mw)
      case (JDict M)
      have 1: "migrate_gui st =
          Returns () (st\<lparr>settings := setitem (settings st) (KStr ''MainWindow'')
             (JDict (setitem M ''hide_getting_started_dialog'' f))\<rparr>)"
        using Some \<open>gui = JDict g\<close> JDict
        by (simp add: migrate_gui_def Let_def f_def mw_def)
      show ?thesis
        unfolding 1 using Some \<open>gui = JDict g\<close>
        by (simp add: migrate_gui_def Let_def update_conv' f_def[symmetric])
    qed (use Some \<open>gui = JDict g\<close> in
          \<open>simp_all add: migrate_gui_def Let_def mw_def[symmetric]\<close>)
  qed (use Some in \<open>simp_all add: migrate_gui_def Let_def\<close>)
qed

lemma sip_other:
  "k \<noteq> KStr ''Servers'' \<Longrightarrow> map_of (servers_in_place doc r) k = map_of doc k"
  by (simp add: servers_in_place_def update_conv')

lemma sip_servers:
  "(case map_of (servers_in_place doc r) (KStr ''Servers'') of None \<Rightarrow> JDict [] | Some s \<Rightarrow> s)
     = (if KStr ''Servers'' \<in> fst ` set doc then r
        else (case map_of doc (KStr ''Servers'') of None \<Rightarrow> JDict [] | Some s \<Rightarrow> s))"
  by (simp add: servers_in_place_def update_conv')

lemma sip_sip: "servers_in_place (servers_in_place doc r) r = servers_in_place doc r"
  by (simp add: servers_in_place_def dom_update)

lemma body_raises_local:
  assumes "migrate_local_server (settings st)
             (case map_of (settings st) (KStr ''Servers'') of None \<Rightarrow> JDict [] | Some s \<Rightarrow> s)
           = (Some e, r)"
  shows "migrate_body st = Raises e (st\<lparr>settings := servers_in_place (settings st) r\<rparr>)"
  using assms by (simp add: migrate_body_def Let_def)

lemma body_raises_remote:
  assumes "migrate_local_server (settings st)
             (case map_of (settings st) (KStr ''Servers'') of None \<Rightarrow> JDict [] | Some s \<Rightarrow> s)
           = (None, r1)"
    and "migrate_remote_servers (settings st) r1 = (Some e, r)"
  shows "migrate_body st = Raises e (st\<lparr>settings := servers_in_place (settings st) r\<rparr>)"
  using assms by (simp add: migrate_body_def Let_def)

lemma body_reaches_gui:
  assumes "migrate_local_server (settings st)
             (case map_of (settings st) (KStr ''Servers'') of None \<Rightarrow> JDict [] | Some s \<Rightarrow> s)
           = (None, r1)"
    and "migrate_remote_servers (settings st) r1 = (None, r)"
  shows "migrate_body st = migrate_gui (st\<lparr>settings := setitem (settings st) (KStr ''Servers'') r\<rparr>)"
  using assms by (simp add: migrate_body_def Let_def)

lemma migrate_body_idem:
  "migrate_body (state_of (migrate_body st)) = migrate_body st"
proof -
  define doc where "doc = settings st"
  define sv where "sv = (case map_of doc (KStr ''Servers'') of None \<Rightarrow> JDict [] | Some s \<Rightarrow> s)"
  obtain e1 r1 where r1: "migrate_local_server doc sv = (e1, r1)" by fastforce
  obtain e2 r2 where r2: "migrate_remote_servers doc r1 = (e2, r2)" by fastforce
  show ?thesis
  proof (cases e1)
    case (Some e)
    have b: "migrate_body st = Raises e (st\<lparr>settings := servers_in_place doc r1\<rparr>)"
      using r1 Some by (simp add: body_raises_local doc_def sv_def)
    show ?thesis
    proof (cases "KStr ''Servers'' \<in> fst ` set doc")
      case True
      have "migrate_local_server (servers_in_place doc r1) r1 = (Some e, r1)"
        using mls_fix[OF r1, of "servers_in_place doc r1"] Some by (simp add: sip_other)
      then have "migrate_body (st\<lparr>settings := servers_in_place doc r1\<rparr>)
          = Raises e (st\<lparr>settings := servers_in_place doc r1\<rparr>)"
        using True by (simp add: body_raises_local sip_servers sip_sip)
      then show ?thesis by (simp add: b)
    next
      case False
      then have "st\<lparr>settings := servers_in_place doc r1\<rparr> = st"
        by (simp add: servers_in_place_def doc_def)
      then show ?thesis by (simp add: b)
    qed
  next
    case None
    note e1 = None
    show ?thesis
    proof (cases e2)
      case (Some e)
      have b: "migrate_body st = Raises e (st\<lparr>settings := servers_in_place doc r2\<rparr>)"
        using r1 r2 e1 Some by (simp add: body_raises_remote[where ?r1.0 = r1] doc_def sv_def)
      show ?thesis
      proof (cases "KStr ''Servers'' \<in> fst ` set doc")
        case True
        have 1: "migrate_local_server (servers_in_place doc r2) r2 = (None, r2)"
          using mls_after_mrs[OF r1[unfolded e1] r2, of "servers_in_place doc r2"]
          by (simp add: sip_other)
        have 2: "migrate_remote_servers (servers_in_place doc r2) r2 = (Some e, r2)"
          using mrs_fix[OF r2, of "servers_in_place doc r2"] Some by (simp add: sip_other)
        have "migrate_body (st\<lparr>settings := servers_in_place doc r2\<rparr>)
            = Raises e (st\<lparr>settings := servers_in_place doc r2\<rparr>)"
          using True 1 2 by (simp add: body_raises_remote[where ?r1.0 = r2] sip_servers sip_sip)
        then show ?thesis by (simp add: b)
      next
        case False
        then have "st\<lparr>settings := servers_in_place doc r2\<rparr> = st"
          by (simp add: servers_in_place_def doc_def)
        then show ?thesis by (simp add: b)
      qed
    next
      case None
      define st1 where "st1 = st\<lparr>settings := setitem doc (KStr ''Servers'') r2\<rparr>"
      define st2 where "st2 = state_of (migrate_gui st1)"
      have b: "migrate_body st = migrate_gui st1"
        using r1 r2 e1 None by (simp add: body_reaches_gui[where ?r1.0 = r1] doc_def sv_def st1_def)
      have keep: "map_of (settings st2) k = map_of (settings st1) k" if "k \<noteq> KStr ''MainWindow''" for k
        using that by (simp add: st2_def migrate_gui_keeps)
      have sv2: "(case map_of (settings st2) (KStr ''Servers'') of None \<Rightarrow> JDict [] | Some s \<Rightarrow> s) = r2"
        by (simp add: keep st1_def update_conv')
      have 1: "migrate_local_server (settings st2) r2 = (None, r2)"
        using mls_after_mrs[OF r1[unfolded e1] r2, of "settings st2"]
        by (simp add: keep st1_def update_conv')
      have 2: "migrate_remote_servers (settings st2) r2 = (None, r2)"
        using mrs_fix[OF r2, of "settings st2"] None by (simp add: keep st1_def update_conv')
      have "map_of (settings st2) (KStr ''Servers'') = Some r2"
        by (simp add: keep st1_def update_conv')
      then have "st2\<lparr>settings := setitem (settings st2) (KStr ''Servers'') r2\<rparr> = st2"
        by (simp add: update_triv)
      then have "migrate_body st2 = migrate_gui st2"
        using 1 2 sv2 by (simp add: body_reaches_gui[where ?r1.0 = r2])
      also have "\<dots> = migrate_gui st1" by (simp add: st2_def migrate_gui_idem)
      finally show ?thesis by (simp add: b st2_def)
    qed
  qed
qed

lemma migrate_body_version:
  "map_of (settings (state_of (migrate_body st))) (KStr ''version'') = map_of (settings st) (KStr ''version'')"
  by (auto simp: migrate_body_def Let_def sip_other migrate_gui_keeps update_conv' split: option.splits)

section \<open>Properties of the reload\<close>

text \<open>Filling a well-formed dictionary with itself as the defaults gives it back.\<close>

lemma cs_fix:
  "wf_items D \<Longrightarrow> (\<And>k v. (k, v) \<in> set D \<Longrightarrow> map_of l k = Some v) \<Longrightarrow>
   copySettings (JDict l) D = Inr (JDict l)"
proof (induction l D rule: cs_induct)
  case (Nil l)
  show ?case by simp
next
  case (New l name val rest)
  from New.prems(2)[of name val] have "map_of l name = Some val" by simp
  with New.hyps show ?case by (auto dest: mem_keys)
next
  case (Plain l name val rest lv)
  from Plain.prems have "copySettings (JDict l) rest = Inr (JDict l)"
    by (intro Plain.IH) auto
  with Plain.hyps show ?case by (simp add: cs_plain)
next
  case (Nested l name dflt rest lv)
  from Nested.prems(2)[of name "JDict dflt"] Nested.hyps have lv: "lv = JDict dflt" by simp
  from Nested.prems(1) have wf: "distinct (map fst dflt)" "wf_items dflt" "wf_items rest" by auto
  have sub: "copySettings (JDict dflt) dflt = Inr (JDict dflt)"
    using wf by (intro Nested.IH(1)[OF lv]) auto
  have "setitem l name (JDict dflt) = l"
    using Nested.hyps lv by (simp add: update_triv)
  moreover have "copySettings (JDict (setitem l name (JDict dflt))) rest
      = Inr (JDict (setitem l name (JDict dflt)))"
    using sub lv wf Nested.prems(2) Nested.hyps
    by (intro Nested.IH(2)) (auto simp: update_triv)
  ultimately show ?case using Nested.hyps sub lv by (simp add: cs_nested)
qed

lemma cs_self: "wf_json (JDict d) \<Longrightarrow> copySettings (JDict d) d = Inr (JDict d)"
  by (rule cs_fix) auto

lemma load_self:
  "map_of (settings st) section = Some (JDict d) \<Longrightarrow> wf_json (JDict d) \<Longrightarrow>
   loadSectionSettings section d st = Returns (JDict d) st"
  by (simp add: loadSectionSettings_def Let_def cs_self update_triv)

lemma wf_doc_lookup: "wf_doc d \<Longrightarrow> map_of d k = Some v \<Longrightarrow> wf_json v"
  by (induction d) (auto simp: wf_doc_def split: if_splits)

lemma reload_loop_id:
  "wf_doc (settings st) \<Longrightarrow> set ks \<subseteq> fst ` set (settings st) \<Longrightarrow>
   reload_loop ks st = Returns (JDict []) st"
proof (induction ks)
  case Nil
  show ?case by simp
next
  case (Cons sec ks)
  then obtain v where v: "map_of (settings st) sec = Some v"
    by (cases "map_of (settings st) sec") (auto simp: map_of_eq_None_iff)
  with Cons.prems have "wf_json v" by (auto dest: wf_doc_lookup)
  with v Cons show ?case by (cases v) (simp_all add: load_self)
qed

lemma reload_sections_id:
  "wf_doc (settings st) \<Longrightarrow> reload_sections st = Returns (JDict []) st"
  by (simp add: reload_sections_def reload_loop_id)

lemma wf_doc_update: "wf_doc d \<Longrightarrow> wf_json v \<Longrightarrow> wf_doc (setitem d k v)"
  by (induction d) (auto simp: wf_doc_def)

lemma wf_doc_dict_update: "wf_doc e \<Longrightarrow> wf_doc d \<Longrightarrow> wf_doc (dict_update d e)"
  unfolding dict_update_def
proof (induction e arbitrary: d)
  case Nil
  then show ?case by simp
next
  case (Cons kv e)
  from Cons.prems have "wf_doc e" "wf_json (snd kv)" by (simp_all add: wf_doc_def)
  with Cons.prems(2) have "wf_doc (setitem d (fst kv) (snd kv))" by (simp add: wf_doc_update)
  from Cons.IH[OF \<open>wf_doc e\<close> this] show ?case by (cases kv) simp
qed

lemma wf_doc_str_keys: "wf_items c \<Longrightarrow> wf_doc (str_keys c)"
  by (induction c) (auto simp: wf_doc_def str_keys_def)

lemma dict_update_in:
  "distinct (map fst e) \<Longrightarrow> map_of e k = Some v \<Longrightarrow> map_of (dict_update d e) k = Some v"
  unfolding dict_update_def
proof (induction e arbitrary: d)
  case Nil
  then show ?case by simp
next
  case (Cons kv e)
  show ?case
  proof (cases "fst kv = k")
    case True
    with Cons.prems have "snd kv = v" "k \<notin> fst ` set e" by auto
    then have "map_of (dict_update (setitem d (fst kv) (snd kv)) e) k = Some v"
      using True by (simp add: dict_update_other update_conv')
    then show ?thesis by (cases kv) (simp add: dict_update_def)
  next
    case False
    with Cons.prems have "distinct (map fst e)" "map_of e k = Some v" by auto
    from Cons.IH[OF this] show ?thesis by (cases kv) simp
  qed
qed

lemma str_keys_lookup: "map_of (str_keys c) (KStr k) = map_of c k"
  by (induction c) (auto simp: str_keys_def)

lemma str_keys_distinct: "distinct (map fst c) \<Longrightarrow> distinct (map fst (str_keys c))"
  by (induction c) (auto simp: str_keys_def)

lemma dict_update_lookup:
  "distinct (map fst e) \<Longrightarrow>
   map_of (dict_update d e) k = (case map_of e k of None \<Rightarrow> map_of d k | Some v \<Rightarrow> Some v)"
  by (cases "map_of e k") (simp_all add: dict_update_in dict_update_other map_of_None_keys)

lemma read_object:
  assumes "wf_doc (settings st)" and "fs config_path = Loads t (JDict c)" and "wf_json (JDict c)"
  shows "readConfig fs config_path st =
           Returns (JDict [])
             (st\<lparr>last_config_changed := Some t, settings := dict_update (settings st) (str_keys c)\<rparr>)"
proof -
  from assms(3) have "wf_doc (str_keys c)" by (simp add: wf_doc_str_keys)
  with assms(1) have "wf_doc (dict_update (settings st) (str_keys c))"
    by (simp add: wf_doc_dict_update)
  then show ?thesis using assms(2) by (simp add: readConfig_def Let_def reload_sections_id)
qed

section \<open>Claims about the default filling\<close>

text \<open>
  C1. The claim: for every default template and every stored section, the filled
  section holds every key of the defaults, also under nested dictionaries, a key held by
  both keeps the stored value, and \<^verbatim>\<open>loadSectionSettings\<close> returns the filled section.
  As stated it fails: with the stored section \<^verbatim>\<open>{"k": 5}\<close> and the defaults
  \<^verbatim>\<open>{"k": {"x": 1}}\<close> the call raises \<^verbatim>\<open>TypeError\<close> and returns nothing.
\<close>

theorem C1_counterexample:
  "loadSectionSettings (KStr ''S'') [(''k'', JDict [(''x'', JInt 1)])]
     \<lparr>settings = [(KStr ''S'', JDict [(''k'', JInt 5)])], config_file = ''gns3_gui.conf'',
      last_config_changed = None, io_log = []\<rparr>
   = Raises TypeError
     \<lparr>settings = [(KStr ''S'', JDict [(''k'', JInt 5)])], config_file = ''gns3_gui.conf'',
      last_config_changed = None, io_log = []\<rparr>"
  by (simp add: loadSectionSettings_def Let_def copySettings.simps(2))

text \<open>
  C1, amended. When the stored section has the shape the defaults ask for (where the
  defaults hold a dictionary, the section lacks the key or holds a dictionary, and so on
  inside), the filling returns a dictionary that holds every key of the defaults, also
  under nested dictionaries; every stored key keeps its value, a stored dictionary under
  a default dictionary being filled in the same way; and \<^verbatim>\<open>loadSectionSettings\<close> returns
  this dictionary and stores it under the section's name.
\<close>

theorem C1_fill_keeps_and_covers:
  assumes "(case map_of (settings st) section of None \<Rightarrow> JDict [] | Some v \<Rightarrow> v) = JDict s"
    and "wf_json (JDict s)"
    and "wf_json (JDict dflts)"
    and "shape_ok (JDict s) dflts"
  shows "\<exists>r. copySettings (JDict s) dflts = Inr (JDict r)
           \<and> has_keys (JDict r) dflts
           \<and> keeps s r dflts
           \<and> loadSectionSettings section dflts st =
               Returns (JDict r) (st\<lparr>settings := setitem (settings st) section (JDict r)\<rparr>)"
proof -
  from cs_total[OF assms(4,3)] obtain r where r: "copySettings (JDict s) dflts = Inr (JDict r)"
    by blast
  have "has_keys (JDict r) dflts" using cs_has_keys[OF r assms(4,3)] .
  moreover have "keeps s r dflts" using cs_keeps[OF r assms(4,3,2)] .
  moreover have "loadSectionSettings section dflts st =
      Returns (JDict r) (st\<lparr>settings := setitem (settings st) section (JDict r)\<rparr>)"
    using assms(1) r by (simp add: loadSectionSettings_def Let_def)
  ultimately show ?thesis using r by blast
qed

theorem C1_witness:
  "\<exists>r. copySettings (JDict [(''a'', JInt 7), (''n'', JDict [])])
          [(''a'', JInt 1), (''b'', JBool True), (''n'', JDict [(''x'', JInt 1)])] = Inr (JDict r)
     \<and> has_keys (JDict r) [(''a'', JInt 1), (''b'', JBool True), (''n'', JDict [(''x'', JInt 1)])]
     \<and> keeps [(''a'', JInt 7), (''n'', JDict [])] r
          [(''a'', JInt 1), (''b'', JBool True), (''n'', JDict [(''x'', JInt 1)])]
     \<and> loadSectionSettings (KStr ''S'')
          [(''a'', JInt 1), (''b'', JBool True), (''n'', JDict [(''x'', JInt 1)])]
          \<lparr>settings = [(KStr ''S'', JDict [(''a'', JInt 7), (''n'', JDict [])])],
           config_file = ''gns3_gui.conf'', last_config_changed = None, io_log = []\<rparr>
        = Returns (JDict r)
          (\<lparr>settings = [(KStr ''S'', JDict [(''a'', JInt 7), (''n'', JDict [])])],
            config_file = ''gns3_gui.conf'', last_config_changed = None, io_log = []\<rparr>
           \<lparr>settings := setitem [(KStr ''S'', JDict [(''a'', JInt 7), (''n'', JDict [])])]
                           (KStr ''S'') (JDict r)\<rparr>)"
  using C1_fill_keeps_and_covers
    [of "\<lparr>settings = [(KStr ''S'', JDict [(''a'', JInt 7), (''n'', JDict [])])],
           config_file = ''gns3_gui.conf'', last_config_changed = None, io_log = []\<rparr>"
        "KStr ''S''" "[(''a'', JInt 7), (''n'', JDict [])]"
        "[(''a'', JInt 1), (''b'', JBool True), (''n'', JDict [(''x'', JInt 1)])]"]
  by simp

text \<open>
  C9. The claim: \<^verbatim>\<open>loadSectionSettings\<close> returns normally whenever the stored section has
  the shape the defaults ask for, and when the section holds a value that is not a
  dictionary under a key whose default is a dictionary, the call fails instead of filling.
  The second half fails as stated: with the stored section \<^verbatim>\<open>{"k": 5}\<close> and the defaults
  \<^verbatim>\<open>{"k": {}}\<close> the loop over the empty default never touches the 5, and the call returns.
\<close>

theorem C9_counterexample:
  "loadSectionSettings (KStr ''S'') [(''k'', JDict [])]
     \<lparr>settings = [(KStr ''S'', JDict [(''k'', JInt 5)])], config_file = ''gns3_gui.conf'',
      last_config_changed = None, io_log = []\<rparr>
   = Returns (JDict [(''k'', JInt 5)])
     \<lparr>settings = [(KStr ''S'', JDict [(''k'', JInt 5)])], config_file = ''gns3_gui.conf'',
      last_config_changed = None, io_log = []\<rparr>"
  by (simp add: loadSectionSettings_def Let_def copySettings.simps(2))

text \<open>
  C9, amended. With well-formed defaults, \<^verbatim>\<open>loadSectionSettings\<close> returns a dictionary
  whenever the section is absent or has the shape the defaults ask for. When the stored
  section is a dictionary that holds null, a boolean or a number under a key whose default
  is a dictionary with at least one key, the call raises \<^verbatim>\<open>TypeError\<close> and leaves the
  store as it was.
\<close>

theorem C9_total_on_shape:
  "(wf_json (JDict dflts) \<and>
    (case map_of (settings st) section of None \<Rightarrow> True | Some v \<Rightarrow> shape_ok v dflts)
    \<longrightarrow> (\<exists>r. loadSectionSettings section dflts st =
              Returns (JDict r) (st\<lparr>settings := setitem (settings st) section (JDict r)\<rparr>)))
   \<and>
   (map_of (settings st) section = Some (JDict s) \<and> map_of s k = Some lv \<and>
    not_iterable lv \<and>
    map_of dflts k = Some (JDict dflt) \<and> dflt \<noteq> []
    \<longrightarrow> loadSectionSettings section dflts st = Raises TypeError st)"
proof (intro conjI impI)
  assume a: "wf_json (JDict dflts) \<and>
    (case map_of (settings st) section of None \<Rightarrow> True | Some v \<Rightarrow> shape_ok v dflts)"
  define local where "local = (case map_of (settings st) section of None \<Rightarrow> JDict [] | Some v \<Rightarrow> v)"
  have "shape_ok local dflts"
  proof (cases "map_of (settings st) section")
    case None
    have "shape_ok (JDict []) dflts" by (induction dflts) auto
    with None show ?thesis by (simp add: local_def)
  next
    case (Some v)
    with a show ?thesis by (simp add: local_def)
  qed
  then obtain l where l: "local = JDict l" using shape_ok_dict by blast
  with \<open>shape_ok local dflts\<close> a obtain r where "copySettings (JDict l) dflts = Inr (JDict r)"
    using cs_total by blast
  with l show "\<exists>r. loadSectionSettings section dflts st =
      Returns (JDict r) (st\<lparr>settings := setitem (settings st) section (JDict r)\<rparr>)"
    by (auto simp: loadSectionSettings_def Let_def local_def)
next
  assume b: "map_of (settings st) section = Some (JDict s) \<and> map_of s k = Some lv \<and>
    not_iterable lv \<and>
    map_of dflts k = Some (JDict dflt) \<and> dflt \<noteq> []"
  then have "copySettings (JDict s) dflts = Inl TypeError"
    using cs_reaches[of s k lv dflts dflt] by blast
  with b show "loadSectionSettings section dflts st = Raises TypeError st"
    by (simp add: loadSectionSettings_def Let_def)
qed

theorem C9_witness:
  "(\<exists>r. loadSectionSettings (KStr ''S'') [(''a'', JInt 1), (''n'', JDict [(''x'', JInt 1)])]
          \<lparr>settings = [(KStr ''S'', JDict [(''n'', JDict [])])], config_file = ''gns3_gui.conf'',
           last_config_changed = None, io_log = []\<rparr>
        = Returns (JDict r)
          (\<lparr>settings = [(KStr ''S'', JDict [(''n'', JDict [])])], config_file = ''gns3_gui.conf'',
            last_config_changed = None, io_log = []\<rparr>
           \<lparr>settings := setitem [(KStr ''S'', JDict [(''n'', JDict [])])] (KStr ''S'') (JDict r)\<rparr>))
   \<and> loadSectionSettings (KStr ''S'') [(''a'', JInt 1), (''n'', JDict [(''x'', JInt 1)])]
          \<lparr>settings = [(KStr ''S'', JDict [(''n'', JBool False)])], config_file = ''gns3_gui.conf'',
           last_config_changed = None, io_log = []\<rparr>
        = Raises TypeError
          \<lparr>settings = [(KStr ''S'', JDict [(''n'', JBool False)])], config_file = ''gns3_gui.conf'',
           last_config_changed = None, io_log = []\<rparr>"
  using
    C9_total_on_shape
      [of "[(''a'', JInt 1), (''n'', JDict [(''x'', JInt 1)])]"
          "\<lparr>settings = [(KStr ''S'', JDict [(''n'', JDict [])])], config_file = ''gns3_gui.conf'',
            last_config_changed = None, io_log = []\<rparr>"
          "KStr ''S''" "[]" "''n''" JNull "[]"]
    C9_total_on_shape
      [of "[(''a'', JInt 1), (''n'', JDict [(''x'', JInt 1)])]"
          "\<lparr>settings = [(KStr ''S'', JDict [(''n'', JBool False)])], config_file = ''gns3_gui.conf'',
            last_config_changed = None, io_log = []\<rparr>"
          "KStr ''S''" "[(''n'', JBool False)]" "''n''" "JBool False" "[(''x'', JInt 1)]"]
  by simp

section \<open>Claims about the store\<close>

text \<open>
  C8. The order of versions that the migration tests with is dotted-numeric and not the
  order of the strings: \<^verbatim>\<open>"1.3.9"\<close> is less than \<^verbatim>\<open>"1.4.0"\<close>, and \<^verbatim>\<open>"1.10.0"\<close> is greater than
  \<^verbatim>\<open>"1.4.0"\<close>, which the order of strings would put below it. So the test of the migration
  holds for \<^verbatim>\<open>"1.3.9"\<close> and fails for \<^verbatim>\<open>"1.10.0"\<close>.
\<close>

theorem C8_dotted_numeric_order:
  "version_lt ''1.3.9'' ''1.4.0'' = Some True
   \<and> version_lt ''1.4.0'' ''1.10.0'' = Some True
   \<and> version_lt ''1.10.0'' ''1.4.0'' = Some False
   \<and> lexical_lt ''1.10.0'' ''1.4.0''
   \<and> older_than_cutoff (JStr ''1.3.9'') = Inr True
   \<and> older_than_cutoff (JStr ''1.10.0'') = Inr False"
  by (simp add: version_lt_def parse_version_def digit_val_def older_than_cutoff_def)

text \<open>
  C2. The claim: a document without \<^verbatim>\<open>version\<close> whose \<^verbatim>\<open>LocalServer\<close> section has the obsolete
  path has, after the migration, the new path under \<^verbatim>\<open>Servers.local_server.path\<close> and no
  top-level \<^verbatim>\<open>LocalServer\<close> key. The last part fails: the migration copies the section and
  deletes nothing, so \<^verbatim>\<open>LocalServer\<close> is still there, with the obsolete path.
\<close>

theorem C2_counterexample:
  "map_of (settings (state_of (migrateOldConfig older_than_cutoff
      \<lparr>settings = [(KStr ''LocalServer'', JDict [(''path'', JStr old_server_path)])],
       config_file = ''gns3_gui.conf'', last_config_changed = None, io_log = []\<rparr>)))
     (KStr ''LocalServer'')
   = Some (JDict [(''path'', JStr old_server_path)])"
  by (simp add: migrateOldConfig_def migrate_body_def migrate_local_server_def
      migrate_remote_servers_def migrate_gui_def Let_def)

text \<open>
  C2, amended. For a document without \<^verbatim>\<open>version\<close> whose \<^verbatim>\<open>LocalServer\<close> section has the obsolete
  path, and whose \<^verbatim>\<open>Servers\<close> entry is absent or a dictionary, the document after the
  migration has the new path under \<^verbatim>\<open>Servers.local_server.path\<close>, and its top-level
  \<^verbatim>\<open>LocalServer\<close> section is the one it had.
\<close>

theorem C2_local_server_copied:
  assumes "map_of (settings st) (KStr ''version'') = None"
    and "map_of (settings st) (KStr ''LocalServer'') = Some (JDict ls)"
    and "map_of ls ''path'' = Some (JStr old_server_path)"
    and "(case map_of (settings st) (KStr ''Servers'') of None \<Rightarrow> True | Some v \<Rightarrow> is_dict v)"
  shows "\<exists>sv lsv. map_of (settings (state_of (migrateOldConfig older st))) (KStr ''Servers'') = Some (JDict sv)
           \<and> map_of sv ''local_server'' = Some (JDict lsv)
           \<and> map_of lsv ''path'' = Some (JStr new_server_path)
           \<and> map_of (settings (state_of (migrateOldConfig older st))) (KStr ''LocalServer'') = Some (JDict ls)"
proof -
  obtain sv0 where sv0: "(case map_of (settings st) (KStr ''Servers'') of None \<Rightarrow> JDict [] | Some s \<Rightarrow> s) = JDict sv0"
    using assms(4) by (cases "map_of (settings st) (KStr ''Servers'')"; simp) (metis is_dict.elims(2))
  define lsv where "lsv = setitem ls ''path'' (JStr new_server_path)"
  define sv1 where "sv1 = setitem (setitem sv0 ''local_server'' (JDict ls)) ''local_server'' (JDict lsv)"
  have l: "migrate_local_server (settings st) (JDict sv0) = (None, JDict sv1)"
    using assms(2,3) by (simp add: migrate_local_server_def sv1_def lsv_def)
  obtain sv2 where r: "migrate_remote_servers (settings st) (JDict sv1) = (None, JDict sv2)"
    and sv2: "map_of sv2 ''local_server'' = map_of sv1 ''local_server''"
    by (cases "map_of (settings st) (KStr ''RemoteServers'')")
       (auto simp: migrate_remote_servers_def update_conv')
  have b: "migrate_body st = migrate_gui (st\<lparr>settings := setitem (settings st) (KStr ''Servers'') (JDict sv2)\<rparr>)"
    using sv0 l r by (simp add: migrate_body_def Let_def)
  have m: "migrateOldConfig older st = migrate_body st"
    using assms(1) by (simp add: migrateOldConfig_def)
  have "map_of (settings (state_of (migrateOldConfig older st))) (KStr ''Servers'') = Some (JDict sv2)"
    unfolding m b by (simp add: migrate_gui_keeps update_conv')
  moreover have "map_of sv2 ''local_server'' = Some (JDict lsv)"
    by (simp add: sv2 sv1_def update_conv')
  moreover have "map_of lsv ''path'' = Some (JStr new_server_path)"
    by (simp add: lsv_def update_conv')
  moreover have "map_of (settings (state_of (migrateOldConfig older st))) (KStr ''LocalServer'') = Some (JDict ls)"
    unfolding m b using assms(2) by (simp add: migrate_gui_keeps update_conv')
  ultimately show ?thesis by blast
qed

theorem C2_witness:
  "\<exists>sv lsv.
     map_of (settings (state_of (migrateOldConfig older_than_cutoff
        \<lparr>settings = [(KStr ''Servers'', JDict [(''x'', JInt 1)]),
                     (KStr ''LocalServer'', JDict [(''path'', JStr old_server_path), (''port'', JInt 8000)])],
         config_file = ''gns3_gui.conf'', last_config_changed = None, io_log = []\<rparr>)))
       (KStr ''Servers'') = Some (JDict sv)
     \<and> map_of sv ''local_server'' = Some (JDict lsv)
     \<and> map_of lsv ''path'' = Some (JStr new_server_path)
     \<and> map_of (settings (state_of (migrateOldConfig older_than_cutoff
        \<lparr>settings = [(KStr ''Servers'', JDict [(''x'', JInt 1)]),
                     (KStr ''LocalServer'', JDict [(''path'', JStr old_server_path), (''port'', JInt 8000)])],
         config_file = ''gns3_gui.conf'', last_config_changed = None, io_log = []\<rparr>)))
       (KStr ''LocalServer'')
       = Some (JDict [(''path'', JStr old_server_path), (''port'', JInt 8000)])"
  using C2_local_server_copied
    [of "\<lparr>settings = [(KStr ''Servers'', JDict [(''x'', JInt 1)]),
                     (KStr ''LocalServer'', JDict [(''path'', JStr old_server_path), (''port'', JInt 8000)])],
         config_file = ''gns3_gui.conf'', last_config_changed = None, io_log = []\<rparr>"
        "[(''path'', JStr old_server_path), (''port'', JInt 8000)]" older_than_cutoff]
  by simp

text \<open>
  C5. The claim: \<^verbatim>\<open>saveSectionSettings\<close> writes the document exactly when the merge changes
  the section, and skips the write when the merge leaves the section as it was. The code
  means this, as its two log messages say (\<^verbatim>\<open>Section %s has changed. Saving configuration\<close>
  and \<^verbatim>\<open>Section %s has not changed. Skip saving configuration\<close>), but what it tests is
  whether the section differs from the given dictionary. With the section
  \<^verbatim>\<open>{"a": 1, "b": 2}\<close> and the dictionary \<^verbatim>\<open>{"a": 1}\<close> the merge changes nothing, and on a
  working disk the whole document is dumped to the temporary file and moved over the
  configuration file, and a new modification time is recorded.
\<close>

theorem C5_writes_unchanged_section:
  "saveSectionSettings ''1.4.0'' (WrOk 9) (KStr ''S'') [(''a'', JInt 1)]
     \<lparr>settings = [(KStr ''S'', JDict [(''a'', JInt 1), (''b'', JInt 2)]),
                  (KStr ''version'', JStr ''1.4.0'')],
      config_file = ''/c/gns3_gui.conf'', last_config_changed = Some 3, io_log = []\<rparr>
   = Returns ()
     \<lparr>settings = [(KStr ''S'', JDict [(''a'', JInt 1), (''b'', JInt 2)]),
                  (KStr ''version'', JStr ''1.4.0'')],
      config_file = ''/c/gns3_gui.conf'', last_config_changed = Some 9,
      io_log = [Opened ''/c/gns3_gui.tmp'',
                Dumped ''/c/gns3_gui.tmp''
                  [(KStr ''S'', JDict [(''a'', JInt 1), (''b'', JInt 2)]),
                   (KStr ''version'', JStr ''1.4.0'')],
                Moved ''/c/gns3_gui.tmp'' ''/c/gns3_gui.conf'']\<rparr>"
  by (simp add: saveSectionSettings_def writeConfig_def dict_update_def dirname_def
      path_join_def Let_def)

text \<open>
  C6. The claim: when the given dictionary equals the section's content,
  \<^verbatim>\<open>saveSectionSettings\<close> does nothing to the disk and keeps the recorded modification
  time, and in every other case it persists the document. The last part fails. When the
  temporary file cannot be opened, \<^verbatim>\<open>_writeConfig\<close> catches the error and the call returns
  with nothing written, although the values differ. And under a name that holds a string,
  as \<^verbatim>\<open>version\<close> does, the call raises \<^verbatim>\<open>AttributeError\<close> and writes nothing.
\<close>

theorem C6_counterexample:
  "saveSectionSettings ''1.4.0'' WrOpenFails (KStr ''S'') [(''a'', JInt 2)]
     \<lparr>settings = [(KStr ''S'', JDict [(''a'', JInt 1)])],
      config_file = ''/c/gns3_gui.conf'', last_config_changed = Some 3, io_log = []\<rparr>
   = Returns ()
     \<lparr>settings = [(KStr ''S'', JDict [(''a'', JInt 2)]), (KStr ''version'', JStr ''1.4.0'')],
      config_file = ''/c/gns3_gui.conf'', last_config_changed = Some 3, io_log = []\<rparr>
   \<and> saveSectionSettings ''1.4.0'' (WrOk 9) (KStr ''version'') [(''a'', JInt 2)]
     \<lparr>settings = [(KStr ''version'', JStr ''1.3.0'')],
      config_file = ''/c/gns3_gui.conf'', last_config_changed = Some 3, io_log = []\<rparr>
   = Raises AttributeError
     \<lparr>settings = [(KStr ''version'', JStr ''1.3.0'')],
      config_file = ''/c/gns3_gui.conf'', last_config_changed = Some 3, io_log = []\<rparr>"
  by (simp add: saveSectionSettings_def writeConfig_def dict_update_def Let_def)

text \<open>
  C6, amended. For a section name that is absent or holds a dictionary: when the given
  dictionary equals the section's content (the empty dictionary for an absent section),
  \<^verbatim>\<open>saveSectionSettings\<close> returns with nothing done to the disk and with the recorded
  modification time as it was. In every other case it merges and runs \<^verbatim>\<open>_writeConfig\<close> on
  the merged document. When the temporary file cannot be opened, the call returns with the
  merged and stamped document in memory, nothing written and the modification time as it
  was. When the keys of the document are strings, the call returns whatever the disk
  does, and on a working disk the merged document with its version stamp is dumped to the
  temporary file and moved to the configuration file, and the new modification time is
  recorded.
\<close>

theorem C6_equal_skips_else_persists:
  assumes "(case map_of (settings st) section of None \<Rightarrow> d = [] | Some v \<Rightarrow> v = JDict d)"
  shows "(py_eq (JDict d) (JDict new) \<longrightarrow>
            (\<exists>st'. saveSectionSettings ver wr section new st = Returns () st'
                  \<and> io_log st' = io_log st
                  \<and> last_config_changed st' = last_config_changed st))
       \<and> (\<not> py_eq (JDict d) (JDict new) \<longrightarrow>
            saveSectionSettings ver wr section new st =
              writeConfig ver wr
                (st\<lparr>settings := setitem (settings st) section (JDict (dict_update d new))\<rparr>)
            \<and> saveSectionSettings ver WrOpenFails section new st =
                Returns ()
                  (st\<lparr>settings :=
                        setitem (setitem (settings st) section (JDict (dict_update d new)))
                          (KStr ''version'') (JStr ver)\<rparr>)
            \<and> (list_all is_str_key (section # map fst (settings st)) \<longrightarrow>
                 (\<exists>st'. saveSectionSettings ver wr section new st = Returns () st')
                 \<and> saveSectionSettings ver (WrOk t) section new st =
                   Returns ()
                     (st\<lparr>settings :=
                           setitem (setitem (settings st) section (JDict (dict_update d new)))
                             (KStr ''version'') (JStr ver),
                         last_config_changed := Some t,
                         io_log := io_log st @
                           [Opened (path_join (dirname (config_file st)) ''gns3_gui.tmp''),
                            Dumped (path_join (dirname (config_file st)) ''gns3_gui.tmp'')
                              (setitem (setitem (settings st) section (JDict (dict_update d new)))
                                 (KStr ''version'') (JStr ver)),
                            Moved (path_join (dirname (config_file st)) ''gns3_gui.tmp'')
                              (config_file st)]\<rparr>)))"
proof (intro conjI impI)
  assume eq: "py_eq (JDict d) (JDict new)"
  show "\<exists>st'. saveSectionSettings ver wr section new st = Returns () st'
          \<and> io_log st' = io_log st \<and> last_config_changed st' = last_config_changed st"
    unfolding save_equal[OF assms eq] by simp
next
  assume ne: "\<not> py_eq (JDict d) (JDict new)"
  show "saveSectionSettings ver wr section new st =
      writeConfig ver wr (st\<lparr>settings := setitem (settings st) section (JDict (dict_update d new))\<rparr>)"
    by (rule save_differs[OF assms ne])
next
  assume ne: "\<not> py_eq (JDict d) (JDict new)"
  show "saveSectionSettings ver WrOpenFails section new st =
      Returns ()
        (st\<lparr>settings :=
              setitem (setitem (settings st) section (JDict (dict_update d new)))
                (KStr ''version'') (JStr ver)\<rparr>)"
    unfolding save_differs[OF assms ne] by (simp add: writeConfig_open_fails)
next
  assume ne: "\<not> py_eq (JDict d) (JDict new)"
    and keys: "list_all is_str_key (section # map fst (settings st))"
  from keys have "list_all is_str_key
      (map fst (settings (st\<lparr>settings := setitem (settings st) section (JDict (dict_update d new))\<rparr>)))"
    by (simp add: str_keys_update)
  from writeConfig_returns[OF this, of ver wr]
  show "\<exists>st'. saveSectionSettings ver wr section new st = Returns () st'"
    unfolding save_differs[OF assms ne] .
next
  assume ne: "\<not> py_eq (JDict d) (JDict new)"
    and keys: "list_all is_str_key (section # map fst (settings st))"
  from keys have "list_all is_str_key
      (map fst (settings (st\<lparr>settings := setitem (settings st) section (JDict (dict_update d new))\<rparr>)))"
    by (simp add: str_keys_update)
  from writeConfig_ok[OF this, of ver t]
  show "saveSectionSettings ver (WrOk t) section new st =
      Returns ()
        (st\<lparr>settings :=
              setitem (setitem (settings st) section (JDict (dict_update d new)))
                (KStr ''version'') (JStr ver),
            last_config_changed := Some t,
            io_log := io_log st @
              [Opened (path_join (dirname (config_file st)) ''gns3_gui.tmp''),
               Dumped (path_join (dirname (config_file st)) ''gns3_gui.tmp'')
                 (setitem (setitem (settings st) section (JDict (dict_update d new)))
                    (KStr ''version'') (JStr ver)),
               Moved (path_join (dirname (config_file st)) ''gns3_gui.tmp'')
                 (config_file st)]\<rparr>)"
    unfolding save_differs[OF assms ne] by simp
qed

theorem C6_witness:
  "(\<exists>st'. saveSectionSettings ''1.4.0'' (WrOk 9) (KStr ''S'') [(''a'', JInt 1)]
            \<lparr>settings = [(KStr ''S'', JDict [(''a'', JInt 1)])],
             config_file = ''/c/gns3_gui.conf'', last_config_changed = Some 3, io_log = []\<rparr>
          = Returns () st'
        \<and> io_log st' = [] \<and> last_config_changed st' = Some 3)
   \<and> saveSectionSettings ''1.4.0'' (WrOk 9) (KStr ''S'') [(''a'', JInt 2)]
         \<lparr>settings = [(KStr ''S'', JDict [(''a'', JInt 1)])],
          config_file = ''/c/gns3_gui.conf'', last_config_changed = Some 3, io_log = []\<rparr>
       = Returns ()
         \<lparr>settings = [(KStr ''S'', JDict [(''a'', JInt 2)]), (KStr ''version'', JStr ''1.4.0'')],
          config_file = ''/c/gns3_gui.conf'', last_config_changed = Some 9,
          io_log = [Opened ''/c/gns3_gui.tmp'',
                    Dumped ''/c/gns3_gui.tmp''
                      [(KStr ''S'', JDict [(''a'', JInt 2)]), (KStr ''version'', JStr ''1.4.0'')],
                    Moved ''/c/gns3_gui.tmp'' ''/c/gns3_gui.conf'']\<rparr>
   \<and> saveSectionSettings ''1.4.0'' WrOpenFails (KStr ''S'') [(''a'', JInt 2)]
         \<lparr>settings = [(KStr ''S'', JDict [(''a'', JInt 1)])],
          config_file = ''/c/gns3_gui.conf'', last_config_changed = Some 3, io_log = []\<rparr>
       = Returns ()
         \<lparr>settings = [(KStr ''S'', JDict [(''a'', JInt 2)]), (KStr ''version'', JStr ''1.4.0'')],
          config_file = ''/c/gns3_gui.conf'', last_config_changed = Some 3, io_log = []\<rparr>"
  using
    C6_equal_skips_else_persists
      [of "[(''a'', JInt 1)]"
          "\<lparr>settings = [(KStr ''S'', JDict [(''a'', JInt 1)])],
            config_file = ''/c/gns3_gui.conf'', last_config_changed = Some 3, io_log = []\<rparr>"
          "KStr ''S''" "[(''a'', JInt 1)]" "''1.4.0''" "WrOk 9" 9]
    C6_equal_skips_else_persists
      [of "[(''a'', JInt 1)]"
          "\<lparr>settings = [(KStr ''S'', JDict [(''a'', JInt 1)])],
            config_file = ''/c/gns3_gui.conf'', last_config_changed = Some 3, io_log = []\<rparr>"
          "KStr ''S''" "[(''a'', JInt 2)]" "''1.4.0''" "WrOk 9" 9]
  by (simp add: dict_update_def dirname_def path_join_def writeConfig_def Let_def)

text \<open>
  C10. The claim: neither mutator deletes or changes what it is not given. For
  \<^verbatim>\<open>setSettings\<close> it fails on the key \<^verbatim>\<open>version\<close>: the write that follows the merge stamps the
  running version, so a document with version \<^verbatim>\<open>"1.3.0"\<close> has version \<^verbatim>\<open>"1.4.0"\<close> after
  \<^verbatim>\<open>setSettings({"a": 2})\<close>, although the given document has no \<^verbatim>\<open>version\<close> key.
\<close>

theorem C10_counterexample:
  "setSettings ''1.4.0'' (WrOk 9) [(KStr ''a'', JInt 2)]
     \<lparr>settings = [(KStr ''version'', JStr ''1.3.0''), (KStr ''a'', JInt 1)],
      config_file = ''/c/gns3_gui.conf'', last_config_changed = Some 3, io_log = []\<rparr>
   = Returns ()
     \<lparr>settings = [(KStr ''version'', JStr ''1.4.0''), (KStr ''a'', JInt 2)],
      config_file = ''/c/gns3_gui.conf'', last_config_changed = Some 9,
      io_log = [Opened ''/c/gns3_gui.tmp'',
                Dumped ''/c/gns3_gui.tmp''
                  [(KStr ''version'', JStr ''1.4.0''), (KStr ''a'', JInt 2)],
                Moved ''/c/gns3_gui.tmp'' ''/c/gns3_gui.conf'']\<rparr>"
  by (simp add: setSettings_def doc_eq_def writeConfig_def dict_update_def dirname_def
      path_join_def Let_def)

text \<open>
  C10, amended. After \<^verbatim>\<open>saveSectionSettings(section, s)\<close> on a section other than \<^verbatim>\<open>version\<close>
  that holds a dictionary, every key of the section that is absent from \<open>s\<close> is still in
  the section with the value it had. After \<^verbatim>\<open>setSettings(doc)\<close> every top-level key other
  than \<^verbatim>\<open>version\<close> that is absent from \<open>doc\<close> is still in the document with the value it
  had, and every top-level key, \<^verbatim>\<open>version\<close> too, is still a key of the document.
\<close>

theorem C10_keys_survive:
  "(map_of (settings st) section = Some (JDict d) \<and> section \<noteq> KStr ''version''
      \<and> map_of d k = Some v \<and> map_of new k = None
     \<longrightarrow> (\<exists>d'. map_of (settings (state_of (saveSectionSettings ver wr section new st))) section
                  = Some (JDict d')
              \<and> map_of d' k = Some v))
   \<and> (map_of (settings st) key = Some w \<and> map_of doc key = None \<and> key \<noteq> KStr ''version''
     \<longrightarrow> map_of (settings (state_of (setSettings ver wr doc st))) key = Some w)
   \<and> (key \<in> fst ` set (settings st)
     \<longrightarrow> key \<in> fst ` set (settings (state_of (setSettings ver wr doc st))))"
proof (intro conjI impI)
  assume a: "map_of (settings st) section = Some (JDict d) \<and> section \<noteq> KStr ''version''
      \<and> map_of d k = Some v \<and> map_of new k = None"
  then have sec: "(case map_of (settings st) section of None \<Rightarrow> d = [] | Some v \<Rightarrow> v = JDict d)"
    by simp
  from a have k: "k \<notin> fst ` set new" by (simp add: map_of_None_keys)
  show "\<exists>d'. map_of (settings (state_of (saveSectionSettings ver wr section new st))) section
                  = Some (JDict d') \<and> map_of d' k = Some v"
  proof (cases "py_eq (JDict d) (JDict new)")
    case True
    show ?thesis unfolding save_equal[OF sec True] using a by (simp add: update_conv')
  next
    case False
    show ?thesis unfolding save_differs[OF sec False] using a k
      by (simp add: writeConfig_settings update_conv' dict_update_other)
  qed
next
  assume b: "map_of (settings st) key = Some w \<and> map_of doc key = None \<and> key \<noteq> KStr ''version''"
  then have "key \<notin> fst ` set doc" by (simp add: map_of_None_keys)
  with b show "map_of (settings (state_of (setSettings ver wr doc st))) key = Some w"
    by (simp add: setSettings_def writeConfig_settings update_conv' dict_update_other)
next
  assume c: "key \<in> fst ` set (settings st)"
  with dict_update_dom[of "settings st" doc]
  show "key \<in> fst ` set (settings (state_of (setSettings ver wr doc st)))"
    by (auto simp: setSettings_def writeConfig_settings dom_update)
qed

theorem C10_witness:
  "(\<exists>d'. map_of (settings (state_of (saveSectionSettings ''1.4.0'' (WrOk 9) (KStr ''S'') [(''a'', JInt 5)]
            \<lparr>settings = [(KStr ''version'', JStr ''1.3.0''),
                         (KStr ''S'', JDict [(''a'', JInt 1), (''b'', JInt 2)])],
             config_file = ''/c/gns3_gui.conf'', last_config_changed = Some 3, io_log = []\<rparr>)))
          (KStr ''S'') = Some (JDict d')
        \<and> map_of d' ''b'' = Some (JInt 2))
   \<and> map_of (settings (state_of (setSettings ''1.4.0'' (WrOk 9) [(KStr ''T'', JDict [])]
            \<lparr>settings = [(KStr ''version'', JStr ''1.3.0''),
                         (KStr ''S'', JDict [(''a'', JInt 1), (''b'', JInt 2)])],
             config_file = ''/c/gns3_gui.conf'', last_config_changed = Some 3, io_log = []\<rparr>)))
          (KStr ''S'') = Some (JDict [(''a'', JInt 1), (''b'', JInt 2)])
   \<and> KStr ''S'' \<in> fst ` set (settings (state_of (setSettings ''1.4.0'' (WrOk 9) [(KStr ''T'', JDict [])]
            \<lparr>settings = [(KStr ''version'', JStr ''1.3.0''),
                         (KStr ''S'', JDict [(''a'', JInt 1), (''b'', JInt 2)])],
             config_file = ''/c/gns3_gui.conf'', last_config_changed = Some 3, io_log = []\<rparr>)))"
  using C10_keys_survive
    [of "\<lparr>settings = [(KStr ''version'', JStr ''1.3.0''),
                         (KStr ''S'', JDict [(''a'', JInt 1), (''b'', JInt 2)])],
             config_file = ''/c/gns3_gui.conf'', last_config_changed = Some 3, io_log = []\<rparr>"
        "KStr ''S''" "[(''a'', JInt 1), (''b'', JInt 2)]" "''b''" "JInt 2" "[(''a'', JInt 5)]"
        "''1.4.0''" "WrOk 9" "KStr ''S''" "JDict [(''a'', JInt 1), (''b'', JInt 2)]"
        "[(KStr ''T'', JDict [])]"]
  by simp

text \<open>
  C4. The migration is idempotent: run on the state that a first run leaves, it ends as
  the first run ended (it returns, or raises the same exception) and leaves that state as
  it is. This holds whatever the comparison of versions answers. And when the document
  has a \<^verbatim>\<open>version\<close> that the comparison does not find older than \<^verbatim>\<open>"1.4.0"\<close>, the migration
  returns with the document unchanged; with the dotted-numeric order of versions, this is
  every document whose version is not less than \<^verbatim>\<open>"1.4.0"\<close> in that order.
\<close>

theorem C4_migration_idempotent:
  "migrateOldConfig older (state_of (migrateOldConfig older st)) = migrateOldConfig older st
   \<and> (map_of (settings st) (KStr ''version'') = Some v \<and> older v = Inr False
        \<longrightarrow> migrateOldConfig older st = Returns () st)
   \<and> (map_of (settings st) (KStr ''version'') = Some (JStr s) \<and> version_lt s ''1.4.0'' = Some False
        \<longrightarrow> migrateOldConfig older_than_cutoff st = Returns () st)"
proof (intro conjI impI)
  show "migrateOldConfig older (state_of (migrateOldConfig older st)) = migrateOldConfig older st"
  proof (cases "case map_of (settings st) (KStr ''version'') of None \<Rightarrow> Inr True | Some v \<Rightarrow> older v")
    case (Inl e)
    then show ?thesis by (simp add: migrateOldConfig_def)
  next
    case (Inr b)
    show ?thesis
    proof (cases b)
      case True
      with Inr have m: "migrateOldConfig older st = migrate_body st"
        by (simp add: migrateOldConfig_def)
      from Inr True have "migrateOldConfig older (state_of (migrate_body st))
          = migrate_body (state_of (migrate_body st))"
        by (simp add: migrateOldConfig_def migrate_body_version)
      then show ?thesis by (simp add: m migrate_body_idem)
    next
      case False
      with Inr show ?thesis by (simp add: migrateOldConfig_def)
    qed
  qed
next
  assume "map_of (settings st) (KStr ''version'') = Some v \<and> older v = Inr False"
  then show "migrateOldConfig older st = Returns () st"
    by (simp add: migrateOldConfig_def)
next
  assume "map_of (settings st) (KStr ''version'') = Some (JStr s) \<and> version_lt s ''1.4.0'' = Some False"
  then show "migrateOldConfig older_than_cutoff st = Returns () st"
    by (simp add: migrateOldConfig_def older_than_cutoff_def)
qed

theorem C4_witness:
  "migrateOldConfig older_than_cutoff (state_of (migrateOldConfig older_than_cutoff
      \<lparr>settings = [(KStr ''LocalServer'', JDict [(''path'', JStr old_server_path)]),
                   (KStr ''GUI'', JDict [])],
       config_file = ''gns3_gui.conf'', last_config_changed = None, io_log = []\<rparr>))
   = migrateOldConfig older_than_cutoff
      \<lparr>settings = [(KStr ''LocalServer'', JDict [(''path'', JStr old_server_path)]),
                   (KStr ''GUI'', JDict [])],
       config_file = ''gns3_gui.conf'', last_config_changed = None, io_log = []\<rparr>
   \<and> migrateOldConfig older_than_cutoff
      \<lparr>settings = [(KStr ''version'', JStr ''1.10.0''), (KStr ''LocalServer'', JDict [(''path'', JStr ''p'')])],
       config_file = ''gns3_gui.conf'', last_config_changed = None, io_log = []\<rparr>
     = Returns ()
      \<lparr>settings = [(KStr ''version'', JStr ''1.10.0''), (KStr ''LocalServer'', JDict [(''path'', JStr ''p'')])],
       config_file = ''gns3_gui.conf'', last_config_changed = None, io_log = []\<rparr>"
  using
    C4_migration_idempotent
      [of older_than_cutoff
          "\<lparr>settings = [(KStr ''LocalServer'', JDict [(''path'', JStr old_server_path)]),
                       (KStr ''GUI'', JDict [])],
            config_file = ''gns3_gui.conf'', last_config_changed = None, io_log = []\<rparr>"
          "JStr ''1.10.0''" "''1.10.0''"]
    C4_migration_idempotent
      [of older_than_cutoff
          "\<lparr>settings = [(KStr ''version'', JStr ''1.10.0''), (KStr ''LocalServer'', JDict [(''path'', JStr ''p'')])],
            config_file = ''gns3_gui.conf'', last_config_changed = None, io_log = []\<rparr>"
          "JStr ''1.10.0''" "''1.10.0''"]
  by (simp add: older_than_cutoff_def version_lt_def parse_version_def digit_val_def)

section \<open>Claims about reading the file\<close>

text \<open>
  C3. The claim: \<^verbatim>\<open>_readConfig\<close> lets no exception out, leaves the document and the recorded
  modification time as they were when the file cannot be parsed or read, and records the
  time and merges only after a successful read. The part on the modification time fails:
  the time is stored as soon as the file is open, before \<^verbatim>\<open>json.load\<close> runs, so a file
  that is not valid JSON leaves the document as it was and the time of the file recorded.
\<close>

theorem C3_counterexample:
  "readConfig (\<lambda>p. LoadFails 7) ''/c/gns3_gui.conf''
     \<lparr>settings = [(KStr ''version'', JStr ''1.4.0'')],
      config_file = ''/c/gns3_gui.conf'', last_config_changed = Some 3, io_log = []\<rparr>
   = Returns (JDict [])
     \<lparr>settings = [(KStr ''version'', JStr ''1.4.0'')],
      config_file = ''/c/gns3_gui.conf'', last_config_changed = Some 7, io_log = []\<rparr>"
  by (simp add: readConfig_def reload_sections_def)

text \<open>
  C3, amended. On a document whose dictionaries have pairwise different keys, as the
  dictionaries of Python have: when the file cannot be opened or its status cannot be
  read, \<^verbatim>\<open>_readConfig\<close> returns with the document and the recorded modification time as
  they were; when the content is not valid JSON, it returns with the document as it was
  and the modification time of the file recorded; when the content is a JSON object (its
  dictionaries with pairwise different keys, as \<^verbatim>\<open>json.load\<close> builds them), it returns
  with the modification time recorded and the object merged into the document key
  by key, a key of the file taking the file's value and every other key keeping its
  value. No exception leaves the call in these cases.
\<close>

theorem C3_read_catches_failures:
  assumes "wf_doc (settings st)"
  shows "(fs config_path = OpenFails \<or> fs config_path = StatFails
            \<longrightarrow> readConfig fs config_path st = Returns (JDict []) st)
       \<and> (fs config_path = LoadFails t
            \<longrightarrow> readConfig fs config_path st =
                  Returns (JDict []) (st\<lparr>last_config_changed := Some t\<rparr>))
       \<and> (fs config_path = Loads t (JDict c) \<and> wf_json (JDict c)
            \<longrightarrow> readConfig fs config_path st =
                  Returns (JDict [])
                    (st\<lparr>last_config_changed := Some t,
                        settings := dict_update (settings st) (str_keys c)\<rparr>)
                \<and> map_of (dict_update (settings st) (str_keys c)) k =
                    (case map_of (str_keys c) k of None \<Rightarrow> map_of (settings st) k | Some v \<Rightarrow> Some v))"
proof (intro conjI impI)
  assume "fs config_path = OpenFails \<or> fs config_path = StatFails"
  with assms show "readConfig fs config_path st = Returns (JDict []) st"
    by (auto simp: readConfig_def reload_sections_id)
next
  assume "fs config_path = LoadFails t"
  with assms show "readConfig fs config_path st = Returns (JDict []) (st\<lparr>last_config_changed := Some t\<rparr>)"
    by (simp add: readConfig_def reload_sections_id)
next
  assume a: "fs config_path = Loads t (JDict c) \<and> wf_json (JDict c)"
  with assms show "readConfig fs config_path st =
      Returns (JDict [])
        (st\<lparr>last_config_changed := Some t, settings := dict_update (settings st) (str_keys c)\<rparr>)"
    by (simp add: read_object)
next
  assume a: "fs config_path = Loads t (JDict c) \<and> wf_json (JDict c)"
  then have "distinct (map fst (str_keys c))" by (simp add: str_keys_distinct)
  then show "map_of (dict_update (settings st) (str_keys c)) k =
      (case map_of (str_keys c) k of None \<Rightarrow> map_of (settings st) k | Some v \<Rightarrow> Some v)"
    by (rule dict_update_lookup)
qed

theorem C3_witness:
  "readConfig (\<lambda>p. OpenFails) ''/c/gns3_gui.conf''
     \<lparr>settings = [(KStr ''S'', JDict [(''a'', JInt 1)])],
      config_file = ''/c/gns3_gui.conf'', last_config_changed = Some 3, io_log = []\<rparr>
   = Returns (JDict [])
     \<lparr>settings = [(KStr ''S'', JDict [(''a'', JInt 1)])],
      config_file = ''/c/gns3_gui.conf'', last_config_changed = Some 3, io_log = []\<rparr>
   \<and> readConfig (\<lambda>p. LoadFails 7) ''/c/gns3_gui.conf''
     \<lparr>settings = [(KStr ''S'', JDict [(''a'', JInt 1)])],
      config_file = ''/c/gns3_gui.conf'', last_config_changed = Some 3, io_log = []\<rparr>
   = Returns (JDict [])
     \<lparr>settings = [(KStr ''S'', JDict [(''a'', JInt 1)])],
      config_file = ''/c/gns3_gui.conf'', last_config_changed = Some 7, io_log = []\<rparr>
   \<and> readConfig (\<lambda>p. Loads 7 (JDict [(''T'', JDict [(''b'', JInt 2)])])) ''/c/gns3_gui.conf''
     \<lparr>settings = [(KStr ''S'', JDict [(''a'', JInt 1)])],
      config_file = ''/c/gns3_gui.conf'', last_config_changed = Some 3, io_log = []\<rparr>
   = Returns (JDict [])
     \<lparr>settings = [(KStr ''S'', JDict [(''a'', JInt 1)]), (KStr ''T'', JDict [(''b'', JInt 2)])],
      config_file = ''/c/gns3_gui.conf'', last_config_changed = Some 7, io_log = []\<rparr>"
  using
    C3_read_catches_failures
      [of "\<lparr>settings = [(KStr ''S'', JDict [(''a'', JInt 1)])],
            config_file = ''/c/gns3_gui.conf'', last_config_changed = Some 3, io_log = []\<rparr>"
          "\<lambda>p. OpenFails" "''/c/gns3_gui.conf''" 7 "[]" "KStr ''S''"]
    C3_read_catches_failures
      [of "\<lparr>settings = [(KStr ''S'', JDict [(''a'', JInt 1)])],
            config_file = ''/c/gns3_gui.conf'', last_config_changed = Some 3, io_log = []\<rparr>"
          "\<lambda>p. LoadFails 7" "''/c/gns3_gui.conf''" 7 "[]" "KStr ''S''"]
    C3_read_catches_failures
      [of "\<lparr>settings = [(KStr ''S'', JDict [(''a'', JInt 1)])],
            config_file = ''/c/gns3_gui.conf'', last_config_changed = Some 3, io_log = []\<rparr>"
          "\<lambda>p. Loads 7 (JDict [(''T'', JDict [(''b'', JInt 2)])])" "''/c/gns3_gui.conf''" 7
          "[(''T'', JDict [(''b'', JInt 2)])]" "KStr ''S''"]
  by (simp add: wf_doc_def dict_update_def str_keys_def)

text \<open>
  C7. The claim: after the merge every section is filled again from the defaults that an
  earlier \<^verbatim>\<open>loadSectionSettings\<close> registered, so that a section loaded with defaults has
  every key of them after a reload. It fails: nothing records the defaults of a call. The
  section \<^verbatim>\<open>S\<close>, absent at first and loaded with the defaults \<^verbatim>\<open>{"a": 1}\<close>, is \<^verbatim>\<open>{"a": 1}\<close>; after
  reading a file that holds \<^verbatim>\<open>{"S": {}}\<close> it is \<^verbatim>\<open>{}\<close>, without the key \<^verbatim>\<open>a\<close>.
\<close>

theorem C7_counterexample:
  "loadSectionSettings (KStr ''S'') [(''a'', JInt 1)]
     \<lparr>settings = [], config_file = ''/c/gns3_gui.conf'', last_config_changed = Some 3, io_log = []\<rparr>
   = Returns (JDict [(''a'', JInt 1)])
     \<lparr>settings = [(KStr ''S'', JDict [(''a'', JInt 1)])],
      config_file = ''/c/gns3_gui.conf'', last_config_changed = Some 3, io_log = []\<rparr>
   \<and> readConfig (\<lambda>p. Loads 7 (JDict [(''S'', JDict [])])) ''/c/gns3_gui.conf''
     \<lparr>settings = [(KStr ''S'', JDict [(''a'', JInt 1)])],
      config_file = ''/c/gns3_gui.conf'', last_config_changed = Some 3, io_log = []\<rparr>
   = Returns (JDict [])
     \<lparr>settings = [(KStr ''S'', JDict [])],
      config_file = ''/c/gns3_gui.conf'', last_config_changed = Some 7, io_log = []\<rparr>
   \<and> \<not> has_keys (JDict []) [(''a'', JInt 1)]"
  by (simp add: loadSectionSettings_def readConfig_def reload_sections_def dict_update_def
      str_keys_def Let_def copySettings.simps(2))

text \<open>
  C7, amended. After \<^verbatim>\<open>_readConfig\<close> has merged a JSON object into the document (the
  dictionaries of both with pairwise different keys, as those of Python have), the loop passes every top-level key whose
  value is a dictionary to \<^verbatim>\<open>loadSectionSettings\<close> with that dictionary itself as the
  defaults, and such a call returns the dictionary and leaves the document as it is. So
  the document after the call is the merged document: a section that the file holds is the
  section of the file, and a key that the file does not hold has the value it had.
\<close>

theorem C7_reload_refills_with_own_value:
  assumes "wf_doc (settings st)" and "fs config_path = Loads t (JDict c)" and "wf_json (JDict c)"
  shows "settings (state_of (readConfig fs config_path st)) = dict_update (settings st) (str_keys c)
       \<and> (map_of (settings (state_of (readConfig fs config_path st))) section = Some (JDict d)
            \<longrightarrow> loadSectionSettings section d (state_of (readConfig fs config_path st))
                  = Returns (JDict d) (state_of (readConfig fs config_path st)))
       \<and> (map_of c name = Some v
            \<longrightarrow> map_of (settings (state_of (readConfig fs config_path st))) (KStr name) = Some v)
       \<and> (map_of (str_keys c) key = None
            \<longrightarrow> map_of (settings (state_of (readConfig fs config_path st))) key
                  = map_of (settings st) key)"
proof -
  have r: "readConfig fs config_path st =
      Returns (JDict [])
        (st\<lparr>last_config_changed := Some t, settings := dict_update (settings st) (str_keys c)\<rparr>)"
    using assms by (rule read_object)
  from assms(3) have dist: "distinct (map fst (str_keys c))" by (simp add: str_keys_distinct)
  from assms(3) have "wf_doc (str_keys c)" by (simp add: wf_doc_str_keys)
  with assms(1) have wf: "wf_doc (dict_update (settings st) (str_keys c))"
    by (simp add: wf_doc_dict_update)
  show ?thesis
  proof (intro conjI impI)
    show "settings (state_of (readConfig fs config_path st)) = dict_update (settings st) (str_keys c)"
      by (simp add: r)
  next
    assume "map_of (settings (state_of (readConfig fs config_path st))) section = Some (JDict d)"
    then have look: "map_of (dict_update (settings st) (str_keys c)) section = Some (JDict d)"
      by (simp add: r)
    with wf have "wf_json (JDict d)" by (rule wf_doc_lookup)
    with look show "loadSectionSettings section d (state_of (readConfig fs config_path st))
        = Returns (JDict d) (state_of (readConfig fs config_path st))"
      by (simp add: r load_self)
  next
    assume "map_of c name = Some v"
    then have "map_of (str_keys c) (KStr name) = Some v" by (simp add: str_keys_lookup)
    with dist show "map_of (settings (state_of (readConfig fs config_path st))) (KStr name) = Some v"
      by (simp add: r dict_update_in)
  next
    assume "map_of (str_keys c) key = None"
    then show "map_of (settings (state_of (readConfig fs config_path st))) key = map_of (settings st) key"
      by (simp add: r dict_update_other map_of_None_keys)
  qed
qed

theorem C7_witness:
  "settings (state_of (readConfig (\<lambda>p. Loads 7 (JDict [(''S'', JDict [(''b'', JInt 2)])])) ''/c/gns3_gui.conf''
      \<lparr>settings = [(KStr ''S'', JDict [(''a'', JInt 1)]), (KStr ''T'', JDict [])],
       config_file = ''/c/gns3_gui.conf'', last_config_changed = Some 3, io_log = []\<rparr>))
     = [(KStr ''S'', JDict [(''b'', JInt 2)]), (KStr ''T'', JDict [])]
   \<and> map_of (settings (state_of (readConfig (\<lambda>p. Loads 7 (JDict [(''S'', JDict [(''b'', JInt 2)])])) ''/c/gns3_gui.conf''
      \<lparr>settings = [(KStr ''S'', JDict [(''a'', JInt 1)]), (KStr ''T'', JDict [])],
       config_file = ''/c/gns3_gui.conf'', last_config_changed = Some 3, io_log = []\<rparr>))) (KStr ''S'')
     = Some (JDict [(''b'', JInt 2)])
   \<and> map_of (settings (state_of (readConfig (\<lambda>p. Loads 7 (JDict [(''S'', JDict [(''b'', JInt 2)])])) ''/c/gns3_gui.conf''
      \<lparr>settings = [(KStr ''S'', JDict [(''a'', JInt 1)]), (KStr ''T'', JDict [])],
       config_file = ''/c/gns3_gui.conf'', last_config_changed = Some 3, io_log = []\<rparr>))) (KStr ''T'')
     = Some (JDict [])
   \<and> loadSectionSettings (KStr ''S'') [(''b'', JInt 2)]
        (state_of (readConfig (\<lambda>p. Loads 7 (JDict [(''S'', JDict [(''b'', JInt 2)])])) ''/c/gns3_gui.conf''
          \<lparr>settings = [(KStr ''S'', JDict [(''a'', JInt 1)]), (KStr ''T'', JDict [])],
           config_file = ''/c/gns3_gui.conf'', last_config_changed = Some 3, io_log = []\<rparr>))
     = Returns (JDict [(''b'', JInt 2)])
        (state_of (readConfig (\<lambda>p. Loads 7 (JDict [(''S'', JDict [(''b'', JInt 2)])])) ''/c/gns3_gui.conf''
          \<lparr>settings = [(KStr ''S'', JDict [(''a'', JInt 1)]), (KStr ''T'', JDict [])],
           config_file = ''/c/gns3_gui.conf'', last_config_changed = Some 3, io_log = []\<rparr>))"
  using C7_reload_refills_with_own_value
    [of "\<lparr>settings = [(KStr ''S'', JDict [(''a'', JInt 1)]), (KStr ''T'', JDict [])],
          config_file = ''/c/gns3_gui.conf'', last_config_changed = Some 3, io_log = []\<rparr>"
        "\<lambda>p. Loads 7 (JDict [(''S'', JDict [(''b'', JInt 2)])])" "''/c/gns3_gui.conf''" 7
        "[(''S'', JDict [(''b'', JInt 2)])]" "KStr ''S''" "[(''b'', JInt 2)]"
        "''S''" "JDict [(''b'', JInt 2)]" "KStr ''T''"]
  by (simp add: wf_doc_def dict_update_def str_keys_def)

end
